theory Spec2Isabelle
  imports Main "HOL-Library.Sublist" "HOL-Library.Char_ord" "HOL-Library.List_Lexorder"
begin

section \<open>Strings\<close>

text \<open>
  Python \<open>str\<close> values are modelled as \<open>string\<close>: a character is its code point, so
  the model covers the text of code points below 256. Case folding and the character
  classes below are Python's on these code points. The helpers are the string methods and
  regular expressions the sources call.
\<close>

definition startswith :: "string \<Rightarrow> string \<Rightarrow> bool" where
  \<comment> \<open>\<open>s.startswith(p)\<close>\<close>
  "startswith s p = (take (length p) s = p)"

fun str_in :: "string \<Rightarrow> string \<Rightarrow> bool" where
  \<comment> \<open>\<open>p in s\<close>: substring containment\<close>
  "str_in p [] = (p = [])"
| "str_in p (c # cs) = (startswith (c # cs) p \<or> str_in p cs)"

definition lstrip_chars :: "char \<Rightarrow> string \<Rightarrow> string" where
  \<comment> \<open>\<open>s.lstrip(c)\<close> for a one-character argument\<close>
  "lstrip_chars c s = dropWhile (\<lambda>x. x = c) s"

definition rstrip_chars :: "char \<Rightarrow> string \<Rightarrow> string" where
  \<comment> \<open>\<open>s.rstrip(c)\<close> for a one-character argument\<close>
  "rstrip_chars c s = rev (dropWhile (\<lambda>x. x = c) (rev s))"

definition UPPER_CHARS :: string where
  \<comment> \<open>the upper case letters: A to Z, and 0xC0 to 0xDE without the sign 0xD7\<close>
  "UPPER_CHARS =
     ''ABCDEFGHIJKLMNOPQRSTUVWXYZ'' @
     [CHR 0xC0, CHR 0xC1, CHR 0xC2, CHR 0xC3, CHR 0xC4, CHR 0xC5, CHR 0xC6,
      CHR 0xC7, CHR 0xC8, CHR 0xC9, CHR 0xCA, CHR 0xCB, CHR 0xCC, CHR 0xCD,
      CHR 0xCE, CHR 0xCF, CHR 0xD0, CHR 0xD1, CHR 0xD2, CHR 0xD3, CHR 0xD4,
      CHR 0xD5, CHR 0xD6, CHR 0xD8, CHR 0xD9, CHR 0xDA, CHR 0xDB, CHR 0xDC,
      CHR 0xDD, CHR 0xDE]"

definition LOWER_CHARS :: string where
  \<comment> \<open>their lower case letters, in the same order: each 0x20 higher\<close>
  "LOWER_CHARS =
     ''abcdefghijklmnopqrstuvwxyz'' @
     [CHR 0xE0, CHR 0xE1, CHR 0xE2, CHR 0xE3, CHR 0xE4, CHR 0xE5, CHR 0xE6,
      CHR 0xE7, CHR 0xE8, CHR 0xE9, CHR 0xEA, CHR 0xEB, CHR 0xEC, CHR 0xED,
      CHR 0xEE, CHR 0xEF, CHR 0xF0, CHR 0xF1, CHR 0xF2, CHR 0xF3, CHR 0xF4,
      CHR 0xF5, CHR 0xF6, CHR 0xF8, CHR 0xF9, CHR 0xFA, CHR 0xFB, CHR 0xFC,
      CHR 0xFD, CHR 0xFE]"

definition lower_char :: "char \<Rightarrow> char" where
  "lower_char c =
     (case map_of (zip UPPER_CHARS LOWER_CHARS) c of
        None \<Rightarrow> c
      | Some d \<Rightarrow> d)"

definition lower :: "string \<Rightarrow> string" where
  \<comment> \<open>\<open>s.lower()\<close>\<close>
  "lower s = map lower_char s"

definition is_digit :: "char \<Rightarrow> bool" where
  \<comment> \<open>the regular expression class \<open>\\d\<close>\<close>
  "is_digit c = (c \<in> set ''0123456789'')"

fun split_on :: "char \<Rightarrow> string \<Rightarrow> string list" where
  \<comment> \<open>\<open>s.split(sep)\<close> for a one-character separator\<close>
  "split_on sep [] = [[]]"
| "split_on sep (c # cs) =
     (if c = sep then [] # split_on sep cs
      else (case split_on sep cs of
              [] \<Rightarrow> [[c]]
            | w # ws \<Rightarrow> (c # w) # ws))"

definition truthy :: "string option \<Rightarrow> bool" where
  \<comment> \<open>Python truth value of an attribute lookup: \<open>None\<close> and the empty string are false\<close>
  "truthy v = (case v of None \<Rightarrow> False | Some s \<Rightarrow> s \<noteq> [])"

definition py_or :: "string option \<Rightarrow> string option \<Rightarrow> string option" where
  \<comment> \<open>\<open>x or y\<close>\<close>
  "py_or x y = (if truthy x then x else y)"

section \<open>The extractor (src/extractors/facebook\_parser.py)\<close>

datatype error =
  ValueError | OverflowError | RequestError | ParserError
  | FileNotFoundError | NotADirectoryError | IsADirectoryError | FileExistsError

definition FOLLOWING_URL_PATTERNS :: "string list" where
  "FOLLOWING_URL_PATTERNS =
     [''/friends'', ''/friends_mutual'', ''/following'', ''/profile.php'', ''facebook.com'']"

definition NAVIGATION_TERMS :: "string list" where
  \<comment> \<open>the tuple of skip terms written inline in \<open>_find_candidate_cards\<close>\<close>
  "NAVIGATION_TERMS =
     [''home'', ''create'', ''marketplace'', ''groups'', ''friends'', ''watch'', ''menu'',
      ''log in'', ''log out'', ''privacy'', ''terms'']"

record img_tag =
  src :: "string option"
  data_src :: "string option"

text \<open>
  An anchor element as the code reads it: its \<open>href\<close> attribute (present, since the
  search is \<open>find_all("a", href=True)\<close>), the result of \<open>get_text(strip=True)\<close>, the
  attributes looked up with \<open>get\<close>, and the first \<open>img\<close> descendant.
\<close>

record anchor =
  href :: string
  text_of :: string
  aria_label :: "string option"
  title_attr :: "string option"
  img :: "img_tag option"
  data_gt :: "string option"
  data_hovercard :: "string option"

record FollowingProfile =
  profile_id :: string
  image :: "string option"
  title :: string
  subtitle_text :: "string option"
  url :: string
  username :: "string option"
  profile_details :: "(string \<times> string) list option"

text \<open>
  The library calls of the scraper are parameters of the model: \<open>urljoin\<close> and
  \<open>urlparse\<close> of \<open>urllib.parse\<close> (the latter as the pair of \<open>path\<close> and \<open>query\<close>;
  both raise \<open>ValueError\<close> on a malformed bracketed host), the HTTP session
  (\<open>session.get\<close> followed by \<open>raise_for_status\<close> and \<open>.text\<close>) and the HTML parser
  (\<open>BeautifulSoup(html, "html.parser").find_all("a", href=True)\<close>).
\<close>

record lib =
  urljoin :: "string \<Rightarrow> string \<Rightarrow> error + string"
  urlparse :: "string \<Rightarrow> error + (string \<times> string)"
  http_get :: "string \<Rightarrow> error + string"
  find_all_a :: "string \<Rightarrow> error + anchor list"

definition init_base_url :: "string \<Rightarrow> string" where
  \<comment> \<open>\<open>self.base_url = base_url.rstrip("/")\<close>\<close>
  "init_base_url b = rstrip_chars CHR ''/'' b"

definition normalize_profile_url :: "lib \<Rightarrow> string \<Rightarrow> string \<Rightarrow> error + string" where
  "normalize_profile_url L base u =
     (if startswith u ''http://'' \<or> startswith u ''https://'' then Inr u
      else if startswith u ''//'' then Inr (''https:'' @ u)
      else urljoin L (base @ ''/'') (lstrip_chars CHR ''/'' u))"

fun find_candidate_cards :: "anchor list \<Rightarrow> anchor list" where
  "find_candidate_cards [] = []"
| "find_candidate_cards (a # as) =
     (if \<not> list_ex (\<lambda>pattern. str_in pattern (href a)) FOLLOWING_URL_PATTERNS
        then find_candidate_cards as
      else if text_of a = [] then find_candidate_cards as
      else if list_ex (\<lambda>skip. str_in skip (lower (text_of a))) NAVIGATION_TERMS
        then find_candidate_cards as
      else a # find_candidate_cards as)"

fun search_id :: "string \<Rightarrow> string option" where
  \<comment> \<open>\<open>re.search(r"id=(\\d+)", query)\<close>: group 1 of the leftmost match\<close>
  "search_id [] = None"
| "search_id (c # cs) =
     (if startswith (c # cs) ''id='' \<and> takeWhile is_digit (drop 3 (c # cs)) \<noteq> []
      then Some (takeWhile is_digit (drop 3 (c # cs)))
      else search_id cs)"

definition fullmatch_digits :: "string \<Rightarrow> bool" where
  \<comment> \<open>\<open>re.fullmatch(r"\\d+", s)\<close>\<close>
  "fullmatch_digits s = (s \<noteq> [] \<and> list_all is_digit s)"

definition build_profile_from_anchor ::
  "lib \<Rightarrow> anchor \<Rightarrow> string \<Rightarrow> error + FollowingProfile" where
  "build_profile_from_anchor L a full_url =
     (let subtitle = py_or (py_or (aria_label a) (title_attr a)) None;
          image_url = (case img a of
                         None \<Rightarrow> None
                       | Some t \<Rightarrow> py_or (src t) (data_src t))
      in case urlparse L full_url of
           Inl e \<Rightarrow> Inl e
         | Inr (path, query) \<Rightarrow>
             (let (uname, pid) =
                    (if str_in ''profile.php'' path then
                       (case search_id query of
                          Some d \<Rightarrow> (None, d)
                        | None \<Rightarrow> (None, []))
                     else
                       (let segments = filter (\<lambda>seg. seg \<noteq> []) (split_on CHR ''/'' path)
                        in if segments \<noteq> [] then
                             (if fullmatch_digits (last segments)
                              then (Some (last segments), last segments)
                              else (Some (last segments), last segments))
                           else (None, [])));
                  pid' = (if pid = [] then full_url else pid);
                  details = (if truthy (data_gt a) then [(''data_gt'', the (data_gt a))] else [])
                          @ (if truthy (data_hovercard a)
                             then [(''data_hovercard'', the (data_hovercard a))] else [])
              in Inr \<lparr>profile_id = pid', image = image_url, title = text_of a,
                      subtitle_text = subtitle, url = full_url, username = uname,
                      profile_details = (if details = [] then None else Some details)\<rparr>))"

fun scrape_cards ::
  "lib \<Rightarrow> string \<Rightarrow> int option \<Rightarrow> anchor list \<Rightarrow> string set \<Rightarrow> FollowingProfile list
     \<Rightarrow> error + FollowingProfile list" where
  \<comment> \<open>the loop of \<open>_scrape_profile\<close> over the candidate anchors\<close>
  "scrape_cards L base limit [] seen_urls profiles = Inr profiles"
| "scrape_cards L base limit (a # as) seen_urls profiles =
     (if href a = [] then scrape_cards L base limit as seen_urls profiles
      else case normalize_profile_url L base (href a) of
             Inl e \<Rightarrow> Inl e
           | Inr full_url \<Rightarrow>
               if full_url \<in> seen_urls then scrape_cards L base limit as seen_urls profiles
               else (case build_profile_from_anchor L a full_url of
                       Inl e \<Rightarrow> Inl e
                     | Inr profile \<Rightarrow>
                         if (case limit of
                               None \<Rightarrow> False
                             | Some l \<Rightarrow> int (length (profiles @ [profile])) \<ge> l)
                         then Inr (profiles @ [profile])
                         else scrape_cards L base limit as (insert full_url seen_urls)
                                (profiles @ [profile])))"

definition scrape_profile ::
  "lib \<Rightarrow> string \<Rightarrow> string \<Rightarrow> int option \<Rightarrow> error + FollowingProfile list" where
  "scrape_profile L base profile_url limit =
     (case normalize_profile_url L base profile_url of
        Inl e \<Rightarrow> Inl e
      | Inr resolved_url \<Rightarrow>
          (case http_get L resolved_url of
             Inl e \<Rightarrow> Inl e
           | Inr html \<Rightarrow>
               (case find_all_a L html of
                  Inl e \<Rightarrow> Inl e
                | Inr anchors \<Rightarrow>
                    scrape_cards L base limit (find_candidate_cards anchors) {} [])))"

datatype log_entry = Info string | Error string error

fun scrape ::
  "lib \<Rightarrow> string \<Rightarrow> string list \<Rightarrow> int option \<Rightarrow> FollowingProfile list \<Rightarrow> log_entry list
     \<Rightarrow> FollowingProfile list \<times> log_entry list" where
  \<comment> \<open>the loop of \<open>scrape\<close>; \<open>to_dict\<close> keeps the fields, so the dictionaries are the records\<close>
  "scrape L base [] remaining all_profiles log = (all_profiles, log)"
| "scrape L base (u # us) remaining all_profiles log =
     (if (case remaining of None \<Rightarrow> False | Some r \<Rightarrow> r \<le> 0) then (all_profiles, log)
      else case scrape_profile L base u remaining of
             Inl exc \<Rightarrow> scrape L base us remaining all_profiles (log @ [Info u, Error u exc])
           | Inr profiles \<Rightarrow>
               scrape L base us (map_option (\<lambda>r. r - int (length profiles)) remaining)
                 (all_profiles @ profiles) (log @ [Info u]))"

section \<open>The time normalizer (src/extractors/utils\_time.py)\<close>

text \<open>
  A \<open>datetime\<close> is its wall clock reading, in microseconds since 0001-01-01 00:00:00, and
  its \<open>tzinfo\<close>: \<open>None\<close> for a naive value, \<open>Some off\<close> for a fixed offset of \<open>off\<close>
  microseconds (\<open>timezone.utc\<close> is \<open>Some 0\<close>). Python represents the readings from
  \<open>datetime.min\<close> to \<open>datetime.max\<close> (year 9999); arithmetic that leaves this range raises
  \<open>OverflowError\<close>, and so does a \<open>timedelta\<close> of more than 999999999 days. (The bound of
  recent Python versions on the number of digits \<open>int\<close> converts is not modelled.)
\<close>

record datetime =
  wall :: int
  utcoffset :: "int option"

definition US_PER_MINUTE :: int where "US_PER_MINUTE = 60000000"
definition US_PER_HOUR :: int where "US_PER_HOUR = 3600000000"
definition US_PER_DAY :: int where "US_PER_DAY = 86400000000"

definition MAX_WALL :: int where
  \<comment> \<open>one more than the reading of \<open>datetime.max\<close>: 3652059 days\<close>
  "MAX_WALL = 3652059 * 86400000000"

definition in_range :: "int \<Rightarrow> bool" where
  "in_range w = (0 \<le> w \<and> w < MAX_WALL)"

definition timedelta :: "int \<Rightarrow> error + int" where
  \<comment> \<open>a \<open>timedelta\<close> of the given microseconds\<close>
  "timedelta us =
     (if us div US_PER_DAY < - 999999999 \<or> 999999999 < us div US_PER_DAY
      then Inl OverflowError else Inr us)"

definition sub_timedelta :: "datetime \<Rightarrow> int \<Rightarrow> error + datetime" where
  \<comment> \<open>\<open>dt - td\<close>\<close>
  "sub_timedelta dt td =
     (if in_range (wall dt - td) then Inr (dt\<lparr>wall := wall dt - td\<rparr>)
      else Inl OverflowError)"

definition minus_units :: "datetime \<Rightarrow> int \<Rightarrow> int \<Rightarrow> error + datetime" where
  \<comment> \<open>\<open>now - timedelta(minutes=n)\<close>, and the same for hours and days, by the unit's
      microseconds\<close>
  "minus_units now unit n =
     (case timedelta (n * unit) of
        Inl e \<Rightarrow> Inl e
      | Inr td \<Rightarrow> sub_timedelta now td)"

definition ensure_utc :: "datetime \<Rightarrow> error + datetime" where
  "ensure_utc dt =
     (case utcoffset dt of
        None \<Rightarrow> Inr (dt\<lparr>utcoffset := Some 0\<rparr>)
      | Some off \<Rightarrow>
          (if in_range (wall dt - off) then Inr \<lparr>wall = wall dt - off, utcoffset = Some 0\<rparr>
           else Inl OverflowError))"

definition replace_hm :: "datetime \<Rightarrow> int \<Rightarrow> int \<Rightarrow> error + datetime" where
  \<comment> \<open>\<open>dt.replace(hour=h, minute=m, second=0, microsecond=0)\<close>\<close>
  "replace_hm dt h m =
     (if 0 \<le> h \<and> h \<le> 23 \<and> 0 \<le> m \<and> m \<le> 59
      then Inr (dt\<lparr>wall := (wall dt div US_PER_DAY) * US_PER_DAY
                          + h * US_PER_HOUR + m * US_PER_MINUTE\<rparr>)
      else Inl ValueError)"

definition is_space :: "char \<Rightarrow> bool" where
  \<comment> \<open>\<open>str.isspace\<close> and the class \<open>\\s\<close>: tab to carriage return, the four separators
      0x1C to 0x1F, the space, the next-line control 0x85 and the no-break space 0xA0\<close>
  "is_space c =
     (c \<in> set [CHR 0x09, CHR 0x0A, CHR 0x0B, CHR 0x0C, CHR 0x0D,
                CHR 0x1C, CHR 0x1D, CHR 0x1E, CHR 0x1F, CHR '' '', CHR 0x85, CHR 0xA0])"

definition WORD_CHARS :: string where
  \<comment> \<open>the alphanumeric characters and the underscore: the ASCII ones, then the ordinal
      indicators, the superscript digits, the micro sign, the fractions and the letters
      from 0xC0 on (without the signs 0xD7 and 0xF7)\<close>
  "WORD_CHARS =
     ''abcdefghijklmnopqrstuvwxyzABCDEFGHIJKLMNOPQRSTUVWXYZ0123456789_'' @
     [CHR 0xAA, CHR 0xB2, CHR 0xB3, CHR 0xB5, CHR 0xB9, CHR 0xBA, CHR 0xBC,
      CHR 0xBD, CHR 0xBE, CHR 0xC0, CHR 0xC1, CHR 0xC2, CHR 0xC3, CHR 0xC4,
      CHR 0xC5, CHR 0xC6, CHR 0xC7, CHR 0xC8, CHR 0xC9, CHR 0xCA, CHR 0xCB,
      CHR 0xCC, CHR 0xCD, CHR 0xCE, CHR 0xCF, CHR 0xD0, CHR 0xD1, CHR 0xD2,
      CHR 0xD3, CHR 0xD4, CHR 0xD5, CHR 0xD6, CHR 0xD8, CHR 0xD9, CHR 0xDA,
      CHR 0xDB, CHR 0xDC, CHR 0xDD, CHR 0xDE, CHR 0xDF, CHR 0xE0, CHR 0xE1,
      CHR 0xE2, CHR 0xE3, CHR 0xE4, CHR 0xE5, CHR 0xE6, CHR 0xE7, CHR 0xE8,
      CHR 0xE9, CHR 0xEA, CHR 0xEB, CHR 0xEC, CHR 0xED, CHR 0xEE, CHR 0xEF,
      CHR 0xF0, CHR 0xF1, CHR 0xF2, CHR 0xF3, CHR 0xF4, CHR 0xF5, CHR 0xF6,
      CHR 0xF8, CHR 0xF9, CHR 0xFA, CHR 0xFB, CHR 0xFC, CHR 0xFD, CHR 0xFE,
      CHR 0xFF]"

definition is_word :: "char \<Rightarrow> bool" where
  \<comment> \<open>the class \<open>\\w\<close>\<close>
  "is_word c = (c \<in> set WORD_CHARS)"

definition strip :: "string \<Rightarrow> string" where
  \<comment> \<open>\<open>s.strip()\<close>\<close>
  "strip s = rev (dropWhile is_space (rev (dropWhile is_space s)))"

definition digit_value :: "char \<Rightarrow> int" where
  "digit_value c =
     (case map_of (zip ''0123456789'' [0, 1, 2, 3, 4, 5, 6, 7, 8, 9]) c of
        None \<Rightarrow> 0
      | Some n \<Rightarrow> n)"

definition int_of_digits :: "string \<Rightarrow> int" where
  \<comment> \<open>\<open>int(s)\<close> on a string of digits\<close>
  "int_of_digits s = foldl (\<lambda>n c. 10 * n + digit_value c) 0 s"

definition MINUTES_UNITS :: "string list" where
  "MINUTES_UNITS = [''min'', ''mins'', ''minute'', ''minutes'']"

definition HOURS_UNITS :: "string list" where
  "HOURS_UNITS = [''h'', ''hr'', ''hrs'', ''hour'', ''hours'']"

definition DAYS_UNITS :: "string list" where
  "DAYS_UNITS = [''d'', ''day'', ''days'']"

definition word_boundary :: "string \<Rightarrow> bool" where
  \<comment> \<open>\<open>\\b\<close> after a letter: the rest is empty or begins with a non-word character\<close>
  "word_boundary rest = (case rest of [] \<Rightarrow> True | c # _ \<Rightarrow> \<not> is_word c)"

definition match_relative_at :: "string list \<Rightarrow> string \<Rightarrow> string option" where
  \<comment> \<open>a match of \<open>(?P<value>\\d+)\\s*(u1|u2|...)\\b\<close> beginning at the head of the text: the
      group \<open>value\<close>. The digits and the white space are taken greedily; giving some back
      cannot help, as every unit begins with a letter.\<close>
  "match_relative_at units xs =
     (let ds = takeWhile is_digit xs;
          rest = dropWhile is_space (dropWhile is_digit xs)
      in if ds \<noteq> [] \<and>
            list_ex (\<lambda>u. startswith rest u \<and> word_boundary (drop (length u) rest)) units
         then Some ds else None)"

fun search_relative :: "string list \<Rightarrow> string \<Rightarrow> string option" where
  \<comment> \<open>\<open>pattern.search(s)\<close>: the leftmost position with a match\<close>
  "search_relative units [] = None"
| "search_relative units (c # cs) =
     (case match_relative_at units (c # cs) of
        Some ds \<Rightarrow> Some ds
      | None \<Rightarrow> search_relative units cs)"

definition match_hhmm_at :: "string \<Rightarrow> (string \<times> string) option" where
  \<comment> \<open>a match of \<open>(\\d{1,2}):(\\d{2})\<close> beginning at the head of the text: two digits
      first, then one\<close>
  "match_hhmm_at xs =
     (case xs of
        d1 # d2 # c # m1 # m2 # _ \<Rightarrow>
          (if is_digit d1 \<and> is_digit d2 \<and> c = CHR '':'' \<and> is_digit m1 \<and> is_digit m2
           then Some ([d1, d2], [m1, m2])
           else if is_digit d1 \<and> d2 = CHR '':'' \<and> is_digit c \<and> is_digit m1
           then Some ([d1], [c, m1])
           else None)
      | [d1, c, m1, m2] \<Rightarrow>
          (if is_digit d1 \<and> c = CHR '':'' \<and> is_digit m1 \<and> is_digit m2
           then Some ([d1], [m1, m2]) else None)
      | _ \<Rightarrow> None)"

fun search_hhmm :: "string \<Rightarrow> (string \<times> string) option" where
  \<comment> \<open>\<open>re.search(r"(\\d{1,2}):(\\d{2})", s)\<close>\<close>
  "search_hhmm [] = None"
| "search_hhmm (c # cs) =
     (case match_hhmm_at (c # cs) of
        Some r \<Rightarrow> Some r
      | None \<Rightarrow> search_hhmm cs)"

definition FORMATS :: "string list" where
  "FORMATS = [''%Y-%m-%d %H:%M:%S'', ''%Y-%m-%d'', ''%d.%m.%Y %H:%M'']"

text \<open>
  \<open>datetime.strptime\<close> is a parameter: \<open>strptime text fmt\<close> is \<open>None\<close> where the library
  raises \<open>ValueError\<close>. So is the clock: \<open>clock\<close> is the value of
  \<open>datetime.now(timezone.utc)\<close>.
\<close>

fun try_formats ::
  "(string \<Rightarrow> string \<Rightarrow> datetime option) \<Rightarrow> string \<Rightarrow> string list \<Rightarrow> datetime
     \<Rightarrow> error + datetime" where
  \<comment> \<open>the loop over the absolute formats, and the last resort after it\<close>
  "try_formats strptime text [] now = Inr now"
| "try_formats strptime text (fmt # fmts) now =
     (case strptime text fmt of
        Some dt \<Rightarrow> ensure_utc dt
      | None \<Rightarrow> try_formats strptime text fmts now)"

definition parse_relative_time ::
  "(string \<Rightarrow> string \<Rightarrow> datetime option) \<Rightarrow> datetime \<Rightarrow> string \<Rightarrow> datetime option
     \<Rightarrow> error + datetime" where
  "parse_relative_time strptime clock text now_arg =
     (case (case now_arg of None \<Rightarrow> Inr clock | Some n \<Rightarrow> ensure_utc n) of
        Inl e \<Rightarrow> Inl e
      | Inr now \<Rightarrow>
          (let s = lower (strip text) in
           if s = ''just now'' \<or> s = ''now'' then Inr now
           else if startswith s ''yesterday'' then
             (case sub_timedelta now US_PER_DAY of
                Inl e \<Rightarrow> Inl e
              | Inr dt \<Rightarrow>
                  (case search_hhmm s of
                     None \<Rightarrow> Inr dt
                   | Some (h, m) \<Rightarrow> replace_hm dt (int_of_digits h) (int_of_digits m)))
           else
             (case search_relative MINUTES_UNITS s of
                Some v \<Rightarrow> minus_units now US_PER_MINUTE (int_of_digits v)
              | None \<Rightarrow>
                  (case search_relative HOURS_UNITS s of
                     Some v \<Rightarrow> minus_units now US_PER_HOUR (int_of_digits v)
                   | None \<Rightarrow>
                       (case search_relative DAYS_UNITS s of
                          Some v \<Rightarrow> minus_units now US_PER_DAY (int_of_digits v)
                        | None \<Rightarrow> try_formats strptime text FORMATS now)))))"

definition SAMPLE_NOW :: datetime where
  \<comment> \<open>2024-01-01 12:00:00 UTC: day 738885 after 0001-01-01\<close>
  "SAMPLE_NOW = \<lparr>wall = 738885 * 86400000000 + 12 * 3600000000, utcoffset = Some 0\<rparr>"

section \<open>The exporter (src/outputs/exporters.py)\<close>

text \<open>
  A path is the list of the components \<open>pathlib.Path\<close> parses \<open>output_path\<close> into. The file
  system is the set of its directories and the contents of its files; the directory of
  the empty path (the working directory) exists. Creating a file or a directory fails as
  the operating system has it: \<open>FileNotFoundError\<close> without the parent directory,
  \<open>NotADirectoryError\<close> under a file, \<open>IsADirectoryError\<close> when a directory is opened for
  writing. Permissions and the space on the disk are outside the model. A record is the
  association list of a dictionary, in insertion order. The serializers are parameters:
  \<open>json_dump\<close> for \<open>json.dump(records, f, ensure_ascii=False, indent=2)\<close>, \<open>json_dumps\<close> for
  \<open>json.dumps(record, ensure_ascii=False)\<close>, and \<open>str_of\<close> for the text the \<open>csv\<close> writer
  emits for a value (the empty string for \<open>None\<close>, \<open>str(v)\<close> otherwise).
\<close>

type_synonym path = "string list"

record filesystem =
  dirs :: "path set"
  files :: "path \<rightharpoonup> string"

record 'v serializers =
  json_dump :: "(string \<times> 'v) list list \<Rightarrow> string"
  json_dumps :: "(string \<times> 'v) list \<Rightarrow> string"
  str_of :: "'v \<Rightarrow> string"

definition is_dir :: "filesystem \<Rightarrow> path \<Rightarrow> bool" where
  "is_dir fs p = (p = [] \<or> p \<in> dirs fs)"

definition is_file :: "filesystem \<Rightarrow> path \<Rightarrow> bool" where
  "is_file fs p = (\<not> is_dir fs p \<and> files fs p \<noteq> None)"

definition path_exists :: "filesystem \<Rightarrow> path \<Rightarrow> bool" where
  \<comment> \<open>\<open>path.exists()\<close>\<close>
  "path_exists fs p = (is_dir fs p \<or> is_file fs p)"

definition parent :: "path \<Rightarrow> path" where
  "parent p = butlast p"

definition name_of :: "path \<Rightarrow> string" where
  "name_of p = (if p = [] then [] else last p)"

definition path_suffix :: "string \<Rightarrow> string" where
  \<comment> \<open>\<open>Path.suffix\<close> of a final component: from its last dot, unless that dot is the
      first or the last character\<close>
  "path_suffix nm =
     (if CHR ''.'' \<in> set nm then
        (let after = rev (takeWhile (\<lambda>c. c \<noteq> CHR ''.'') (rev nm));
             i = length nm - length after - 1
         in if 0 < i \<and> after \<noteq> [] then drop i nm else [])
      else [])"

definition mkdir_parents :: "filesystem \<Rightarrow> path \<Rightarrow> error + filesystem" where
  \<comment> \<open>\<open>d.mkdir(parents=True, exist_ok=True)\<close>: the directory and its missing ancestors
      are made, unless the path or one of its ancestors is a file\<close>
  "mkdir_parents fs d =
     (if is_file fs d then Inl FileExistsError
      else if list_ex (is_file fs) (prefixes d) then Inl NotADirectoryError
      else Inr (fs\<lparr>dirs := dirs fs \<union> set (prefixes d)\<rparr>))"

definition ensure_parent_dir :: "filesystem \<Rightarrow> path \<Rightarrow> error + filesystem" where
  "ensure_parent_dir fs p =
     (if \<not> path_exists fs (parent p) then mkdir_parents fs (parent p) else Inr fs)"

definition create_in_parent :: "filesystem \<Rightarrow> path \<Rightarrow> string \<Rightarrow> error + filesystem" where
  \<comment> \<open>the file is made, or replaced, with the content: its parent has to be a directory\<close>
  "create_in_parent fs p content =
     (if is_dir fs (parent p) then Inr (fs\<lparr>files := (files fs)(p \<mapsto> content)\<rparr>)
      else if is_file fs (parent p) then Inl NotADirectoryError
      else Inl FileNotFoundError)"

definition write_file :: "filesystem \<Rightarrow> path \<Rightarrow> string \<Rightarrow> error + filesystem" where
  \<comment> \<open>\<open>path.open("w")\<close>, which truncates, and the writes until the file is closed\<close>
  "write_file fs p content =
     (if is_dir fs p then Inl IsADirectoryError else create_in_parent fs p content)"

definition touch :: "filesystem \<Rightarrow> path \<Rightarrow> error + filesystem" where
  \<comment> \<open>\<open>path.touch()\<close>: a path that exists is left as it is, the content of a file
      included; otherwise an empty file is made\<close>
  "touch fs p = (if path_exists fs p then Inr fs else create_in_parent fs p [])"

definition SUPPORTED :: "string list" where
  "SUPPORTED = [''json'', ''jsonl'', ''csv'']"

definition resolve_format :: "path \<Rightarrow> string option \<Rightarrow> string" where
  \<comment> \<open>the format \<open>export_data\<close> tests: inferred from the extension when the argument is
      \<open>None\<close>, then lowered\<close>
  "resolve_format p output_format =
     lower (case output_format of
              None \<Rightarrow>
                (let ext = lstrip_chars CHR ''.'' (lower (path_suffix (name_of p)))
                 in if ext = [] then ''json'' else ext)
            | Some f \<Rightarrow> f)"

definition export_json ::
  "'v serializers \<Rightarrow> filesystem \<Rightarrow> (string \<times> 'v) list list \<Rightarrow> path
     \<Rightarrow> error + filesystem" where
  "export_json S fs records p = write_file fs p (json_dump S records)"

definition export_jsonl ::
  "'v serializers \<Rightarrow> filesystem \<Rightarrow> (string \<times> 'v) list list \<Rightarrow> path
     \<Rightarrow> error + filesystem" where
  "export_jsonl S fs records p =
     write_file fs p (concat (map (\<lambda>record. json_dumps S record @ [CHR 0x0A]) records))"

definition csv_field :: "string \<Rightarrow> string" where
  \<comment> \<open>minimal quoting: a field with a comma, a quote or a line break is quoted, its
      quotes doubled\<close>
  "csv_field f =
     (if list_ex (\<lambda>c. c \<in> set [CHR '','', CHR 0x22, CHR 0x0D, CHR 0x0A]) f
      then [CHR 0x22] @ concat (map (\<lambda>c. if c = CHR 0x22 then [c, c] else [c]) f) @ [CHR 0x22]
      else f)"

fun join_fields :: "string list \<Rightarrow> string" where
  "join_fields [] = []"
| "join_fields [f] = f"
| "join_fields (f # g # fs) = f @ '','' @ join_fields (g # fs)"

definition csv_row :: "string list \<Rightarrow> string" where
  \<comment> \<open>\<open>writer.writerow\<close>: the fields joined by commas and ended by \<open>\\r\\n\<close>; a row of one
      empty field is written as two quotes\<close>
  "csv_row cells =
     (if cells = [[]] then [CHR 0x22, CHR 0x22] else join_fields (map csv_field cells))
     @ [CHR 0x0D, CHR 0x0A]"

definition ordered_fields :: "(string \<times> 'v) list list \<Rightarrow> string list" where
  \<comment> \<open>\<open>sorted(fieldnames)\<close>, the set of the keys of all records\<close>
  "ordered_fields records = sort (remdups (concat (map (map fst) records)))"

definition dict_to_list :: "'v serializers \<Rightarrow> string list \<Rightarrow> (string \<times> 'v) list \<Rightarrow> string list" where
  \<comment> \<open>\<open>rowdict.get(key, restval)\<close> for every field name, with \<open>restval = ""\<close>\<close>
  "dict_to_list S fieldnames record =
     map (\<lambda>key. case map_of record key of None \<Rightarrow> [] | Some v \<Rightarrow> str_of S v) fieldnames"

definition csv_text :: "'v serializers \<Rightarrow> (string \<times> 'v) list list \<Rightarrow> string" where
  \<comment> \<open>what \<open>writeheader\<close> and the \<open>writerow\<close> of every record write\<close>
  "csv_text S records =
     csv_row (ordered_fields records)
     @ concat (map (\<lambda>record. csv_row (dict_to_list S (ordered_fields records) record)) records)"

definition export_csv ::
  "'v serializers \<Rightarrow> filesystem \<Rightarrow> (string \<times> 'v) list list \<Rightarrow> path
     \<Rightarrow> error + filesystem" where
  "export_csv S fs records p =
     (if records = [] then touch fs p else write_file fs p (csv_text S records))"

definition export_data ::
  "'v serializers \<Rightarrow> filesystem \<Rightarrow> (string \<times> 'v) list list \<Rightarrow> path \<Rightarrow> string option
     \<Rightarrow> error option \<times> filesystem" where
  \<comment> \<open>the error raised, if any, and the file system after the call; \<open>_normalize_records\<close>
      copies every mapping, and the log lines are left out\<close>
  "export_data S fs records p output_format =
     (let fmt = resolve_format p output_format in
      if fmt \<notin> set SUPPORTED then (Some ValueError, fs)
      else
        (case ensure_parent_dir fs p of
           Inl e \<Rightarrow> (Some e, fs)
         | Inr fs1 \<Rightarrow>
             (case (if fmt = ''json'' then export_json S fs1 records p
                    else if fmt = ''jsonl'' then export_jsonl S fs1 records p
                    else export_csv S fs1 records p) of
                Inl e \<Rightarrow> (Some e, fs1)
              | Inr fs2 \<Rightarrow> (None, fs2))))"

section \<open>A sample page, as in the tests\<close>

definition urlparse_plain :: "string \<Rightarrow> error + (string \<times> string)" where
  \<comment> \<open>\<open>path\<close> and \<open>query\<close> of \<open>urlparse\<close> on a URL \<open>http(s)://host/path?query\<close>
      without parameters, fragment or brackets; any other text is a path with a query\<close>
  "urlparse_plain u =
     (let rest = (if startswith u ''https://'' then dropWhile (\<lambda>c. c \<noteq> CHR ''/'') (drop 8 u)
                  else if startswith u ''http://'' then dropWhile (\<lambda>c. c \<noteq> CHR ''/'') (drop 7 u)
                  else u)
      in Inr (takeWhile (\<lambda>c. c \<noteq> CHR ''?'') rest,
              drop 1 (dropWhile (\<lambda>c. c \<noteq> CHR ''?'') rest)))"

definition mk_anchor :: "string \<Rightarrow> string \<Rightarrow> string option \<Rightarrow> anchor" where
  "mk_anchor h t i =
     \<lparr>href = h, text_of = t, aria_label = None, title_attr = None,
      img = (case i of None \<Rightarrow> None | Some s \<Rightarrow> Some \<lparr>src = Some s, data_src = None\<rparr>),
      data_gt = None, data_hovercard = None\<rparr>"

definition SAMPLE_ANCHORS :: "anchor list" where
  \<comment> \<open>the two entries of the tests' sample document, then a navigation link, a second
      link to the first profile under another text, a page with a numeric last segment and
      a relative link of the \<open>profile.php\<close> shape\<close>
  "SAMPLE_ANCHORS =
     [mk_anchor ''https://www.facebook.com/UncutMagazine'' ''Uncut Magazine''
        (Some ''https://scontent-ams4-1.xx.fbcdn.net/photo1.jpg''),
      mk_anchor ''https://www.facebook.com/example.profile'' ''Example Profile''
        (Some ''https://example.com/photo.jpg''),
      mk_anchor ''https://www.facebook.com/login'' ''Log In'' None,
      mk_anchor ''https://www.facebook.com/UncutMagazine'' ''Uncut (again)'' None,
      mk_anchor ''https://www.facebook.com/pages/category/SomePage/12345'' ''Some Page'' None,
      mk_anchor ''/profile.php?id=4'' ''Mark'' None]"

definition sample_lib :: lib where
  \<comment> \<open>every page is the sample document, except that a URL containing \<open>unreachable\<close>
      fails in the HTTP session; relative links are joined to a base ending in a slash\<close>
  "sample_lib =
     \<lparr>urljoin = (\<lambda>b u. Inr (b @ u)),
      urlparse = urlparse_plain,
      http_get = (\<lambda>u. if str_in ''unreachable'' u then Inl RequestError else Inr ''<html>''),
      find_all_a = (\<lambda>h. Inr SAMPLE_ANCHORS)\<rparr>"

definition BASE_URL :: string where
  \<comment> \<open>the default \<open>base_url\<close> of the constructor, after \<open>rstrip("/")\<close>\<close>
  "BASE_URL = init_base_url ''https://www.facebook.com''"

definition urlparse_checked :: "string \<Rightarrow> error + (string \<times> string)" where
  \<comment> \<open>\<open>urlparse_plain\<close>, with the \<open>ValueError\<close> (\<open>Invalid IPv6 URL\<close>) of \<open>urlparse\<close> for a
      host that has one of the two square brackets and not the other\<close>
  "urlparse_checked u =
     (let host = (if startswith u ''https://''
                  then takeWhile (\<lambda>c. c \<notin> set ''/?#'') (drop 8 u)
                  else if startswith u ''http://''
                  then takeWhile (\<lambda>c. c \<notin> set ''/?#'') (drop 7 u)
                  else [])
      in if (CHR ''['' \<in> set host) \<noteq> (CHR '']'' \<in> set host) then Inl ValueError
         else urlparse_plain u)"

definition BRACKET_ANCHORS :: "anchor list" where
  \<comment> \<open>a page of three links, the second with an opening bracket in its host\<close>
  "BRACKET_ANCHORS =
     [mk_anchor ''https://www.facebook.com/amy'' ''Amy'' None,
      mk_anchor ''https://[facebook.com/carl'' ''Carl'' None,
      mk_anchor ''https://www.facebook.com/bob'' ''Bob'' None]"

definition bracket_lib :: lib where
  "bracket_lib =
     \<lparr>urljoin = (\<lambda>b u. Inr (b @ u)),
      urlparse = urlparse_checked,
      http_get = (\<lambda>u. Inr ''<html>''),
      find_all_a = (\<lambda>h. Inr BRACKET_ANCHORS)\<rparr>"

definition sample_strptime :: "string \<Rightarrow> string \<Rightarrow> datetime option" where
  \<comment> \<open>\<open>strptime\<close> on the texts of the sample: \<open>2024-01-01\<close> is a date of the second
      format, a naive midnight, and no other text is of any format\<close>
  "sample_strptime t fmt =
     (if t = ''2024-01-01'' \<and> fmt = ''%Y-%m-%d''
      then Some \<lparr>wall = 738885 * 86400000000, utcoffset = None\<rparr>
      else None)"

datatype pyval = PyNone | PyInt int | PyStr string

fun str_nat :: "nat \<Rightarrow> string" where
  "str_nat n =
     (if n < 10 then [''0123456789'' ! n]
      else str_nat (n div 10) @ [''0123456789'' ! (n mod 10)])"

definition py_str :: "pyval \<Rightarrow> string" where
  \<comment> \<open>what the \<open>csv\<close> writer emits for a value of the sample\<close>
  "py_str v =
     (case v of
        PyNone \<Rightarrow> []
      | PyInt i \<Rightarrow> (if i < 0 then ''-'' @ str_nat (nat (- i)) else str_nat (nat i))
      | PyStr s \<Rightarrow> s)"

definition sample_serializers :: "pyval serializers" where
  \<comment> \<open>the \<open>csv\<close> cells of the sample values; the JSON texts are left empty\<close>
  "sample_serializers = \<lparr>json_dump = (\<lambda>rs. []), json_dumps = (\<lambda>r. []), str_of = py_str\<rparr>"

definition EMPTY_FS :: filesystem where
  "EMPTY_FS = \<lparr>dirs = {}, files = Map.empty\<rparr>"


section \<open>Notions used in the statements\<close>

text \<open>
  \<open>keep_first seen xs\<close> keeps the first occurrence of every element of \<open>xs\<close> that is not
  in \<open>seen\<close>; on the empty set it is \<open>rev (remdups (rev xs))\<close>
  (lemma \<open>keep_first_remdups\<close>).
\<close>

fun keep_first :: "'a set \<Rightarrow> 'a list \<Rightarrow> 'a list" where
  "keep_first seen [] = []"
| "keep_first seen (x # xs) =
     (if x \<in> seen then keep_first seen xs else x # keep_first (insert x seen) xs)"

text \<open>
  \<open>first_with L base ex p\<close>: the record \<open>p\<close> is built from the first anchor of \<open>ex\<close>, in
  document order, whose normalized \<open>href\<close> is the record's \<open>url\<close>.
\<close>

definition first_with :: "lib \<Rightarrow> string \<Rightarrow> anchor list \<Rightarrow> FollowingProfile \<Rightarrow> bool" where
  "first_with L base ex p \<longleftrightarrow>
     (\<exists>pre a post. ex = pre @ a # post \<and> href a \<noteq> []
        \<and> normalize_profile_url L base (href a) = Inr (url p)
        \<and> build_profile_from_anchor L a (url p) = Inr p
        \<and> (\<forall>c\<in>set pre. href c = [] \<or> normalize_profile_url L base (href c) \<noteq> Inr (url p)))"

text \<open>
  \<open>examined_ok L base ex us\<close>: \<open>us\<close> are the normalized URLs of the anchors of \<open>ex\<close> that
  carry a non-empty \<open>href\<close>, in document order.
\<close>

definition examined_ok ::
  "lib \<Rightarrow> string \<Rightarrow> anchor list \<Rightarrow> string list \<Rightarrow> bool" where
  "examined_ok L base ex us \<longleftrightarrow>
     map (\<lambda>a. normalize_profile_url L base (href a)) (filter (\<lambda>a. href a \<noteq> []) ex) = map Inr us"


text \<open>
  \<open>no_relative_form s\<close>: the lowered, stripped text \<open>s\<close> is none of the relative forms: not a
  now token, no \<open>yesterday\<close> prefix, and no match of the minutes, hours and days patterns.
\<close>

definition no_relative_form :: "string \<Rightarrow> bool" where
  "no_relative_form s \<longleftrightarrow>
     s \<noteq> ''just now'' \<and> s \<noteq> ''now'' \<and> \<not> startswith s ''yesterday''
     \<and> search_relative MINUTES_UNITS s = None \<and> search_relative HOURS_UNITS s = None
     \<and> search_relative DAYS_UNITS s = None"

text \<open>
  \<open>destination_ok fs p\<close>: the destination \<open>p\<close> can be written: it is not a directory, and
  no component of its parent path is a file, so that the parent is a directory or can be
  made one.
\<close>

definition destination_ok :: "filesystem \<Rightarrow> path \<Rightarrow> bool" where
  "destination_ok fs p \<longleftrightarrow> \<not> is_dir fs p \<and> \<not> list_ex (is_file fs) (prefixes (parent p))"

section \<open>Deduplication within one page\<close>

lemma keep_first_set: "set (keep_first seen xs) = set xs - seen"
  by (induction xs arbitrary: seen) auto

lemma keep_first_distinct: "distinct (keep_first seen xs)"
  by (induction xs arbitrary: seen) (auto simp: keep_first_set)

lemma keep_first_snoc:
  "keep_first seen (xs @ [x]) =
     keep_first seen xs @ (if x \<in> seen \<or> x \<in> set xs then [] else [x])"
  by (induction xs arbitrary: seen) auto

lemma keep_first_remdups: "keep_first {} xs = rev (remdups (rev xs))"
proof (induction xs rule: rev_induct)
  case Nil
  show ?case by simp
next
  case (snoc x xs)
  then show ?case by (simp add: keep_first_snoc)
qed

lemma build_url: "build_profile_from_anchor L a u = Inr p \<Longrightarrow> url p = u"
  by (auto simp: build_profile_from_anchor_def Let_def split: sum.splits prod.splits if_splits option.splits)

lemma build_title: "build_profile_from_anchor L a u = Inr p \<Longrightarrow> title p = text_of a"
  by (auto simp: build_profile_from_anchor_def Let_def split: sum.splits prod.splits if_splits option.splits)

lemma candidate_iff:
  "a \<in> set (find_candidate_cards as) \<longleftrightarrow>
     a \<in> set as \<and> list_ex (\<lambda>pattern. str_in pattern (href a)) FOLLOWING_URL_PATTERNS
     \<and> text_of a \<noteq> [] \<and> \<not> list_ex (\<lambda>skip. str_in skip (lower (text_of a))) NAVIGATION_TERMS"
  by (induction as) auto

lemma first_with_skip:
  "first_with L base ex p \<Longrightarrow> href c = [] \<or> normalize_profile_url L base (href c) \<noteq> Inr (url p)
     \<Longrightarrow> first_with L base (c # ex) p"
  unfolding first_with_def
  apply (elim exE conjE)
  subgoal for pre a post
    by (rule exI [of _ "c # pre"], rule exI [of _ a], rule exI [of _ post]) auto
  done

lemma first_with_head:
  "href a \<noteq> [] \<Longrightarrow> normalize_profile_url L base (href a) = Inr (url p)
     \<Longrightarrow> build_profile_from_anchor L a (url p) = Inr p \<Longrightarrow> first_with L base (a # ex) p"
  unfolding first_with_def
  by (rule exI [of _ "[]"], rule exI [of _ a], rule exI [of _ ex]) auto

lemma scrape_cards_char:
  "scrape_cards L base limit cs seen acc = Inr ps \<Longrightarrow>
     \<exists>ex rest us new. cs = ex @ rest \<and> examined_ok L base ex us \<and> ps = acc @ new
        \<and> map url new = keep_first seen us \<and> (\<forall>p\<in>set new. first_with L base ex p)"
proof (induction cs arbitrary: seen acc)
  case Nil
  then show ?case by (auto simp: examined_ok_def)
next
  case (Cons a as)
  show ?case
  proof (cases "href a = []")
    case True
    with Cons.prems have "scrape_cards L base limit as seen acc = Inr ps" by simp
    from Cons.IH [OF this] obtain ex rest us new where
      h: "as = ex @ rest" "examined_ok L base ex us" "ps = acc @ new"
         "map url new = keep_first seen us" "\<forall>p\<in>set new. first_with L base ex p"
      by blast
    have 1: "a # as = (a # ex) @ rest" using h by simp
    have 2: "examined_ok L base (a # ex) us" using h True by (simp add: examined_ok_def)
    have 3: "\<forall>p\<in>set new. first_with L base (a # ex) p"
      using h(5) True by (auto intro: first_with_skip)
    show ?thesis using 1 2 3 h(3,4) by blast
  next
    case False
    show ?thesis
    proof (cases "normalize_profile_url L base (href a)")
      case (Inl e)
      with Cons.prems False show ?thesis by simp
    next
      case (Inr u)
      show ?thesis
      proof (cases "u \<in> seen")
        case True
        with Cons.prems False Inr have "scrape_cards L base limit as seen acc = Inr ps" by simp
        from Cons.IH [OF this] obtain ex rest us new where
          h: "as = ex @ rest" "examined_ok L base ex us" "ps = acc @ new"
             "map url new = keep_first seen us" "\<forall>p\<in>set new. first_with L base ex p"
          by blast
        have 1: "a # as = (a # ex) @ rest" using h by simp
        have 2: "examined_ok L base (a # ex) (u # us)"
          using h False Inr by (simp add: examined_ok_def)
        have 4: "map url new = keep_first seen (u # us)" using h(4) True by simp
        have "\<forall>p\<in>set new. url p \<notin> seen"
        proof
          fix p assume "p \<in> set new"
          then have "url p \<in> set (map url new)" by simp
          then show "url p \<notin> seen" unfolding h(4) keep_first_set by simp
        qed
        then have 3: "\<forall>p\<in>set new. first_with L base (a # ex) p"
          using h(5) True Inr by (auto intro!: first_with_skip)
        show ?thesis using 1 2 3 4 h(3) by blast
      next
        case notseen: False
        show ?thesis
        proof (cases "build_profile_from_anchor L a u")
          case (Inl e)
          with Cons.prems False Inr notseen show ?thesis by simp
        next
          case b: (Inr p)
          have up: "url p = u" using b by (rule build_url)
          show ?thesis
          proof (cases "case limit of None \<Rightarrow> False | Some l \<Rightarrow> int (length (acc @ [p])) \<ge> l")
            case True
            with Cons.prems False Inr notseen b have ps: "ps = acc @ [p]" by simp
            have 1: "a # as = [a] @ as" by simp
            have 2: "examined_ok L base [a] [u]" using False Inr by (simp add: examined_ok_def)
            have 4: "map url [p] = keep_first seen [u]" using notseen up by simp
            have 3: "\<forall>q\<in>set [p]. first_with L base [a] q"
              using False Inr b up by (auto intro!: first_with_head)
            show ?thesis using 1 2 3 4 ps by blast
          next
            case nolimit: False
            with Cons.prems False Inr notseen b
            have "scrape_cards L base limit as (insert u seen) (acc @ [p]) = Inr ps" by simp
            from Cons.IH [OF this] obtain ex rest us new where
              h: "as = ex @ rest" "examined_ok L base ex us" "ps = (acc @ [p]) @ new"
                 "map url new = keep_first (insert u seen) us"
                 "\<forall>p\<in>set new. first_with L base ex p"
              by blast
            have 1: "a # as = (a # ex) @ rest" using h by simp
            have 2: "examined_ok L base (a # ex) (u # us)"
              using h False Inr by (simp add: examined_ok_def)
            have 4: "map url (p # new) = keep_first seen (u # us)"
              using h(4) notseen up by simp
            have ne: "\<forall>q\<in>set new. url q \<noteq> u"
            proof
              fix q assume "q \<in> set new"
              then have "url q \<in> set (map url new)" by simp
              then show "url q \<noteq> u" unfolding h(4) keep_first_set by auto
            qed
            have 3: "\<forall>q\<in>set (p # new). first_with L base (a # ex) q"
            proof
              fix q assume q: "q \<in> set (p # new)"
              show "first_with L base (a # ex) q"
              proof (cases "q = p")
                case True
                then show ?thesis using False Inr b up by (auto intro!: first_with_head)
              next
                case qp: False
                with q have qn: "q \<in> set new" by simp
                then have "first_with L base ex q" using h(5) by blast
                moreover have "normalize_profile_url L base (href a) \<noteq> Inr (url q)"
                  using ne qn Inr by auto
                ultimately show ?thesis by (auto intro!: first_with_skip)
              qed
            qed
            have 5: "ps = acc @ (p # new)" using h(3) by simp
            show ?thesis using 1 2 3 4 5 by blast
          qed
        qed
      qed
    qed
  qed
qed


lemma candidate_href: "a \<in> set (find_candidate_cards as) \<Longrightarrow> href a \<noteq> []"
  by (auto simp: candidate_iff list_ex_iff FOLLOWING_URL_PATTERNS_def)

lemma scrape_profile_cases:
  assumes "scrape_profile L base profile_url limit = Inr ps"
  obtains resolved html anchors where
    "normalize_profile_url L base profile_url = Inr resolved"
    "http_get L resolved = Inr html" "find_all_a L html = Inr anchors"
    "scrape_cards L base limit (find_candidate_cards anchors) {} [] = Inr ps"
  using assms unfolding scrape_profile_def by (auto split: sum.splits)

lemma scrape_profile_structure:
  assumes "scrape_profile L base profile_url limit = Inr ps"
  shows "distinct (map url ps) \<and>
    (\<exists>resolved html anchors examined rest us.
        normalize_profile_url L base profile_url = Inr resolved
      \<and> http_get L resolved = Inr html \<and> find_all_a L html = Inr anchors
      \<and> find_candidate_cards anchors = examined @ rest
      \<and> map (\<lambda>a. normalize_profile_url L base (href a)) examined = map Inr us
      \<and> map url ps = rev (remdups (rev us))
      \<and> (\<forall>p\<in>set ps. first_with L base examined p))"
proof -
  from assms obtain resolved html anchors where
    f: "normalize_profile_url L base profile_url = Inr resolved"
       "http_get L resolved = Inr html" "find_all_a L html = Inr anchors"
       "scrape_cards L base limit (find_candidate_cards anchors) {} [] = Inr ps"
    by (rule scrape_profile_cases)
  from scrape_cards_char [OF f(4)] obtain ex rest us new where
    h: "find_candidate_cards anchors = ex @ rest" "examined_ok L base ex us" "ps = [] @ new"
       "map url new = keep_first {} us" "\<forall>p\<in>set new. first_with L base ex p"
    by blast
  have "\<forall>a\<in>set ex. href a \<noteq> []"
  proof
    fix a assume "a \<in> set ex"
    then have "a \<in> set (find_candidate_cards anchors)" unfolding h(1) by simp
    then show "href a \<noteq> []" by (rule candidate_href)
  qed
  then have "filter (\<lambda>a. href a \<noteq> []) ex = ex" by (simp add: filter_id_conv)
  with h(2) have e: "map (\<lambda>a. normalize_profile_url L base (href a)) ex = map Inr us"
    by (simp add: examined_ok_def)
  have u: "map url ps = rev (remdups (rev us))"
    using h(3,4) by (simp add: keep_first_remdups)
  then have d: "distinct (map url ps)" by simp
  have fw: "\<forall>p\<in>set ps. first_with L base ex p" using h(3,5) by simp
  show ?thesis using d f(1-3) h(1) e u fw by blast
qed


text \<open>
  C1. One page scrape deduplicates by normalized URL, first occurrence winning. Whenever
  \<open>_scrape_profile\<close> returns a list, no two records share a \<open>url\<close>; the loop has examined
  a prefix of the candidate anchors, and the records' URLs are exactly the normalized URLs
  of that prefix with every later duplicate removed, in document order; and each record is
  built from the first anchor carrying its URL, so a later anchor with the same URL is
  dropped whatever its visible text is.
\<close>

theorem scrape_profile_dedup_first_wins:
  assumes "scrape_profile L base profile_url limit = Inr ps"
  shows "distinct (map url ps) \<and>
    (\<exists>resolved html anchors examined rest us.
        normalize_profile_url L base profile_url = Inr resolved
      \<and> http_get L resolved = Inr html \<and> find_all_a L html = Inr anchors
      \<and> find_candidate_cards anchors = examined @ rest
      \<and> map (\<lambda>a. normalize_profile_url L base (href a)) examined = map Inr us
      \<and> map url ps = rev (remdups (rev us))
      \<and> (\<forall>p\<in>set ps. first_with L base examined p))"
  using assms by (rule scrape_profile_structure)

lemma sample_scrape_profile:
  "scrape_profile sample_lib BASE_URL ''https://www.facebook.com/x/following'' None =
     Inr [\<lparr>profile_id = ''UncutMagazine'',
            image = Some ''https://scontent-ams4-1.xx.fbcdn.net/photo1.jpg'',
            title = ''Uncut Magazine'', subtitle_text = None,
            url = ''https://www.facebook.com/UncutMagazine'',
            username = Some ''UncutMagazine'', profile_details = None\<rparr>,
          \<lparr>profile_id = ''example.profile'', image = Some ''https://example.com/photo.jpg'',
            title = ''Example Profile'', subtitle_text = None,
            url = ''https://www.facebook.com/example.profile'',
            username = Some ''example.profile'', profile_details = None\<rparr>,
          \<lparr>profile_id = ''12345'', image = None, title = ''Some Page'', subtitle_text = None,
            url = ''https://www.facebook.com/pages/category/SomePage/12345'',
            username = Some ''12345'', profile_details = None\<rparr>,
          \<lparr>profile_id = ''4'', image = None, title = ''Mark'', subtitle_text = None,
            url = ''https://www.facebook.com/profile.php?id=4'',
            username = None, profile_details = None\<rparr>]"
  by code_simp

theorem scrape_profile_dedup_first_wins_witness:
  "\<exists>ps. scrape_profile sample_lib BASE_URL ''https://www.facebook.com/x/following'' None = Inr ps
     \<and> distinct (map url ps)
     \<and> map title ps = [''Uncut Magazine'', ''Example Profile'', ''Some Page'', ''Mark'']"
  using scrape_profile_dedup_first_wins [OF sample_scrape_profile] sample_scrape_profile
  by simp

section \<open>The item cap\<close>

lemma scrape_cards_prefix:
  "scrape_cards L base limit cs seen acc = Inr ps \<Longrightarrow> \<exists>new. ps = acc @ new"
  using scrape_cards_char by blast

lemma scrape_cards_take:
  "scrape_cards L base None cs seen acc = Inr all \<Longrightarrow> int (length acc) < l \<Longrightarrow>
     scrape_cards L base (Some l) cs seen acc = Inr (take (nat l) all)"
proof (induction cs arbitrary: seen acc)
  case Nil
  then show ?case by simp
next
  case (Cons a as)
  show ?case
  proof (cases "href a = []")
    case True
    with Cons show ?thesis by simp
  next
    case False
    show ?thesis
    proof (cases "normalize_profile_url L base (href a)")
      case (Inl e)
      with Cons.prems False show ?thesis by simp
    next
      case (Inr u)
      show ?thesis
      proof (cases "u \<in> seen")
        case True
        with Cons False Inr show ?thesis by simp
      next
        case notseen: False
        show ?thesis
        proof (cases "build_profile_from_anchor L a u")
          case (Inl e)
          with Cons.prems False Inr notseen show ?thesis by simp
        next
          case b: (Inr p)
          from Cons.prems(1) False Inr notseen b
          have rest: "scrape_cards L base None as (insert u seen) (acc @ [p]) = Inr all" by simp
          show ?thesis
          proof (cases "int (length (acc @ [p])) \<ge> l")
            case True
            from scrape_cards_prefix [OF rest] obtain new where n: "all = (acc @ [p]) @ new" by blast
            have "nat l = length (acc @ [p])" using True Cons.prems(2) by simp
            then have "take (nat l) all = acc @ [p]" unfolding n by simp
            with True False Inr notseen b show ?thesis by simp
          next
            case lt: False
            then have "int (length (acc @ [p])) < l" by simp
            from Cons.IH [OF rest this] lt False Inr notseen b show ?thesis by simp
          qed
        qed
      qed
    qed
  qed
qed

lemma scrape_cards_len:
  "scrape_cards L base (Some l) cs seen acc = Inr ps \<Longrightarrow> int (length acc) < l \<Longrightarrow>
     int (length ps) \<le> l"
proof (induction cs arbitrary: seen acc)
  case Nil
  then show ?case by simp
next
  case (Cons a as)
  show ?case
  proof (cases "href a = []")
    case True
    with Cons show ?thesis by simp
  next
    case False
    show ?thesis
    proof (cases "normalize_profile_url L base (href a)")
      case (Inl e)
      with Cons.prems False show ?thesis by simp
    next
      case (Inr u)
      show ?thesis
      proof (cases "u \<in> seen")
        case True
        with Cons False Inr show ?thesis by simp
      next
        case notseen: False
        show ?thesis
        proof (cases "build_profile_from_anchor L a u")
          case (Inl e)
          with Cons.prems False Inr notseen show ?thesis by simp
        next
          case b: (Inr p)
          show ?thesis
          proof (cases "int (length (acc @ [p])) \<ge> l")
            case True
            with Cons.prems False Inr notseen b have "ps = acc @ [p]" by simp
            then show ?thesis using Cons.prems(2) by simp
          next
            case lt: False
            with Cons.prems False Inr notseen b
            have "scrape_cards L base (Some l) as (insert u seen) (acc @ [p]) = Inr ps" by simp
            moreover have "int (length (acc @ [p])) < l" using lt by simp
            ultimately show ?thesis by (rule Cons.IH)
          qed
        qed
      qed
    qed
  qed
qed

lemma scrape_cards_unlimited:
  "scrape_cards L base None cs seen acc = Inr ps \<Longrightarrow>
     \<exists>us. examined_ok L base cs us \<and> map url ps = map url acc @ keep_first seen us"
proof (induction cs arbitrary: seen acc)
  case Nil
  then show ?case by (simp add: examined_ok_def)
next
  case (Cons a as)
  show ?case
  proof (cases "href a = []")
    case True
    with Cons show ?thesis by (simp add: examined_ok_def)
  next
    case False
    show ?thesis
    proof (cases "normalize_profile_url L base (href a)")
      case (Inl e)
      with Cons.prems False show ?thesis by simp
    next
      case (Inr u)
      show ?thesis
      proof (cases "u \<in> seen")
        case True
        with Cons.prems False Inr have "scrape_cards L base None as seen acc = Inr ps" by simp
        from Cons.IH [OF this] obtain us where
          "examined_ok L base as us" "map url ps = map url acc @ keep_first seen us" by blast
        then have "examined_ok L base (a # as) (u # us)
          \<and> map url ps = map url acc @ keep_first seen (u # us)"
          using True False Inr by (simp add: examined_ok_def)
        then show ?thesis by blast
      next
        case notseen: False
        show ?thesis
        proof (cases "build_profile_from_anchor L a u")
          case (Inl e)
          with Cons.prems False Inr notseen show ?thesis by simp
        next
          case b: (Inr p)
          have up: "url p = u" using b by (rule build_url)
          from Cons.prems False Inr notseen b
          have "scrape_cards L base None as (insert u seen) (acc @ [p]) = Inr ps" by simp
          from Cons.IH [OF this] obtain us where
            "examined_ok L base as us"
            "map url ps = map url (acc @ [p]) @ keep_first (insert u seen) us" by blast
          then have "examined_ok L base (a # as) (u # us)
            \<and> map url ps = map url acc @ keep_first seen (u # us)"
            using notseen False Inr up by (simp add: examined_ok_def)
          then show ?thesis by blast
        qed
      qed
    qed
  qed
qed

lemma scrape_profile_take:
  assumes "scrape_profile L base u None = Inr all" and "0 < l"
  shows "scrape_profile L base u (Some l) = Inr (take (nat l) all)"
proof -
  from assms(1) obtain resolved html anchors where
    f: "normalize_profile_url L base u = Inr resolved"
       "http_get L resolved = Inr html" "find_all_a L html = Inr anchors"
       "scrape_cards L base None (find_candidate_cards anchors) {} [] = Inr all"
    by (rule scrape_profile_cases)
  have "scrape_cards L base (Some l) (find_candidate_cards anchors) {} [] = Inr (take (nat l) all)"
    using scrape_cards_take [OF f(4), of l] assms(2) by simp
  then show ?thesis using f(1-3) by (simp add: scrape_profile_def)
qed

lemma scrape_profile_len:
  assumes "scrape_profile L base u (Some l) = Inr ps" and "0 < l"
  shows "int (length ps) \<le> l"
proof -
  from assms(1) obtain resolved html anchors where
    "scrape_cards L base (Some l) (find_candidate_cards anchors) {} [] = Inr ps"
    by (rule scrape_profile_cases)
  from scrape_cards_len [OF this] assms(2) show ?thesis by simp
qed

lemma scrape_profile_total_matches:
  assumes "scrape_profile L base u None = Inr all"
  shows "\<exists>resolved html anchors us.
      normalize_profile_url L base u = Inr resolved
    \<and> http_get L resolved = Inr html \<and> find_all_a L html = Inr anchors
    \<and> map (\<lambda>a. normalize_profile_url L base (href a)) (find_candidate_cards anchors) = map Inr us
    \<and> map url all = rev (remdups (rev us))"
proof -
  from assms(1) obtain resolved html anchors where
    f: "normalize_profile_url L base u = Inr resolved"
       "http_get L resolved = Inr html" "find_all_a L html = Inr anchors"
       "scrape_cards L base None (find_candidate_cards anchors) {} [] = Inr all"
    by (rule scrape_profile_cases)
  from scrape_cards_unlimited [OF f(4)] obtain us where
    h: "examined_ok L base (find_candidate_cards anchors) us" "map url all = keep_first {} us"
    by auto
  have "filter (\<lambda>a. href a \<noteq> []) (find_candidate_cards anchors) = find_candidate_cards anchors"
    by (simp add: filter_id_conv candidate_href)
  with h(1) have e: "map (\<lambda>a. normalize_profile_url L base (href a)) (find_candidate_cards anchors) = map Inr us"
    by (simp add: examined_ok_def)
  show ?thesis using f(1-3) e h(2) by (auto simp: keep_first_remdups)
qed

lemma scrape_exhausted: "r \<le> 0 \<Longrightarrow> scrape L base us (Some r) acc log = (acc, log)"
  by (cases us) simp_all

lemma scrape_bound:
  "0 \<le> r \<Longrightarrow> int (length (fst (scrape L base us (Some r) acc log))) \<le> int (length acc) + r"
proof (induction us arbitrary: r acc log)
  case Nil
  then show ?case by simp
next
  case (Cons u us)
  show ?case
  proof (cases "r \<le> 0")
    case True
    with Cons.prems show ?thesis by simp
  next
    case pos: False
    show ?thesis
    proof (cases "scrape_profile L base u (Some r)")
      case (Inl e)
      with pos Cons.IH [OF Cons.prems] show ?thesis by simp
    next
      case (Inr ps)
      have "int (length ps) \<le> r" using scrape_profile_len [OF Inr] pos by simp
      then have "0 \<le> r - int (length ps)" by simp
      from Cons.IH [OF this, of "acc @ ps" "log @ [Info u]"] Inr pos show ?thesis by simp
    qed
  qed
qed

lemma bracket_candidates: "find_candidate_cards BRACKET_ANCHORS = BRACKET_ANCHORS"
  by code_simp

text \<open>
  C2, as stated, fails: the claim has the extraction of every HTML input return
  \<open>min N totalMatches\<close> records. \<open>_build_profile_from_anchor\<close> calls \<open>urlparse\<close> outside
  any \<open>try\<close>, so one \<open>href\<close> the URL library rejects makes the whole page scrape raise,
  and \<open>scrape\<close> skips the page. The page below has three anchors that survive the filters,
  with three different URLs; the second has the host \<open>[facebook.com\<close>. With the caps 2
  and 5 \<open>scrape\<close> returns no record, and with the cap 1 it returns the first one (the
  loop stops before the second anchor).
\<close>

theorem scrape_cap_malformed_href:
  "find_candidate_cards BRACKET_ANCHORS = BRACKET_ANCHORS
   \<and> length BRACKET_ANCHORS = 3 \<and> distinct (map href BRACKET_ANCHORS)
   \<and> scrape_profile bracket_lib BASE_URL ''https://www.facebook.com/x/following'' None
       = Inl ValueError
   \<and> fst (scrape bracket_lib BASE_URL [''https://www.facebook.com/x/following''] (Some 2) [] [])
       = []
   \<and> fst (scrape bracket_lib BASE_URL [''https://www.facebook.com/x/following''] (Some 5) [] [])
       = []
   \<and> map title
        (fst (scrape bracket_lib BASE_URL [''https://www.facebook.com/x/following''] (Some 1) [] []))
       = [''Amy'']"
proof -
  have 1: "length BRACKET_ANCHORS = 3 \<and> distinct (map href BRACKET_ANCHORS)" by code_simp
  have 2: "scrape_profile bracket_lib BASE_URL ''https://www.facebook.com/x/following'' None
       = Inl ValueError" by code_simp
  have 3: "fst (scrape bracket_lib BASE_URL [''https://www.facebook.com/x/following''] (Some 2) [] [])
       = []" by code_simp
  have 4: "fst (scrape bracket_lib BASE_URL [''https://www.facebook.com/x/following''] (Some 5) [] [])
       = []" by code_simp
  have 5: "map title
        (fst (scrape bracket_lib BASE_URL [''https://www.facebook.com/x/following''] (Some 1) [] []))
       = [''Amy'']" by code_simp
  from bracket_candidates 1 2 3 4 5 show ?thesis by (intro conjI) simp_all
qed

text \<open>
  C2, amended. For a page whose unlimited scrape returns a list \<open>all\<close> (no call of the
  page scrape raises), \<open>scrape\<close> over its URL with \<open>max_items = N\<close>, \<open>N\<close> not negative,
  returns the first \<open>N\<close> records of \<open>all\<close>, hence exactly \<open>min N (length all)\<close> records in
  document order; the URLs of \<open>all\<close> are the normalized URLs of the candidate anchors
  (pattern matched, text not empty, not blocklisted) with later duplicates removed, so
  \<open>length all\<close> is the number of surviving anchors. A page whose scrape raises adds no
  record. Over several URLs the result never has more than \<open>N\<close> records: at a budget
  \<open>r \<le> 0\<close> the loop stops, and a page scraped at a budget \<open>r > 0\<close> returns at most \<open>r\<close>
  records and lowers the budget by the number it returned. (\<open>scrape\<close> never calls
  \<open>_scrape_profile\<close> with a limit below 1.)
\<close>

theorem scrape_cap:
  "(0 \<le> N \<and> scrape_profile L base u None = Inr all \<longrightarrow>
       fst (scrape L base [u] (Some N) [] []) = take (nat N) all
     \<and> int (length (fst (scrape L base [u] (Some N) [] []))) = min N (int (length all)))
   \<and> (scrape_profile L base u None = Inr all \<longrightarrow>
        (\<exists>resolved html anchors us.
            normalize_profile_url L base u = Inr resolved
          \<and> http_get L resolved = Inr html \<and> find_all_a L html = Inr anchors
          \<and> map (\<lambda>a. normalize_profile_url L base (href a)) (find_candidate_cards anchors)
              = map Inr us
          \<and> map url all = rev (remdups (rev us))))
   \<and> (0 \<le> N \<longrightarrow> int (length (fst (scrape L base us (Some N) [] []))) \<le> N)
   \<and> (r \<le> 0 \<longrightarrow> scrape L base us (Some r) acc log = (acc, log))
   \<and> (0 < r \<and> scrape_profile L base u (Some r) = Inr ps \<longrightarrow>
        int (length ps) \<le> r
      \<and> scrape L base (u # us) (Some r) acc log =
          scrape L base us (Some (r - int (length ps))) (acc @ ps) (log @ [Info u]))
   \<and> (0 < r \<and> scrape_profile L base u (Some r) = Inl e \<longrightarrow>
        fst (scrape L base [u] (Some r) acc log) = acc)"
proof -
  have one: "fst (scrape L base [u] (Some N) [] []) = take (nat N) all"
    if "0 \<le> N" "scrape_profile L base u None = Inr all"
  proof (cases "N \<le> 0")
    case True
    with that show ?thesis by simp
  next
    case False
    then have "scrape_profile L base u (Some N) = Inr (take (nat N) all)"
      using scrape_profile_take [OF that(2), of N] by simp
    with False show ?thesis by simp
  qed
  have len: "int (length (take (nat N) all)) = min N (int (length all))" if "0 \<le> N"
    using that by simp
  have agg: "int (length (fst (scrape L base us (Some N) [] []))) \<le> N" if "0 \<le> N"
    using scrape_bound [OF that, of L base us "[]" "[]"] by simp
  have step: "int (length ps) \<le> r \<and> scrape L base (u # us) (Some r) acc log =
          scrape L base us (Some (r - int (length ps))) (acc @ ps) (log @ [Info u])"
    if "0 < r" "scrape_profile L base u (Some r) = Inr ps"
    using that scrape_profile_len [OF that(2) that(1)] by simp
  have c1: "0 \<le> N \<and> scrape_profile L base u None = Inr all \<longrightarrow>
       fst (scrape L base [u] (Some N) [] []) = take (nat N) all
     \<and> int (length (fst (scrape L base [u] (Some N) [] []))) = min N (int (length all))"
  proof (intro impI, elim conjE)
    assume a: "0 \<le> N" and b: "scrape_profile L base u None = Inr all"
    have e: "fst (scrape L base [u] (Some N) [] []) = take (nat N) all" by (rule one [OF a b])
    show "fst (scrape L base [u] (Some N) [] []) = take (nat N) all
     \<and> int (length (fst (scrape L base [u] (Some N) [] []))) = min N (int (length all))"
      unfolding e using len [OF a] by simp
  qed
  have c2: "scrape_profile L base u None = Inr all \<longrightarrow>
        (\<exists>resolved html anchors us.
            normalize_profile_url L base u = Inr resolved
          \<and> http_get L resolved = Inr html \<and> find_all_a L html = Inr anchors
          \<and> map (\<lambda>a. normalize_profile_url L base (href a)) (find_candidate_cards anchors)
              = map Inr us
          \<and> map url all = rev (remdups (rev us)))"
    using scrape_profile_total_matches [of L base u all] by blast
  have c3: "0 \<le> N \<longrightarrow> int (length (fst (scrape L base us (Some N) [] []))) \<le> N"
    using agg by blast
  have c4: "r \<le> 0 \<longrightarrow> scrape L base us (Some r) acc log = (acc, log)"
    using scrape_exhausted [of r L base us acc log] by blast
  have c5: "0 < r \<and> scrape_profile L base u (Some r) = Inr ps \<longrightarrow>
        int (length ps) \<le> r
      \<and> scrape L base (u # us) (Some r) acc log =
          scrape L base us (Some (r - int (length ps))) (acc @ ps) (log @ [Info u])"
    using step by blast
  have c6: "0 < r \<and> scrape_profile L base u (Some r) = Inl e \<longrightarrow>
        fst (scrape L base [u] (Some r) acc log) = acc"
    by simp
  from c1 c2 c3 c4 c5 c6 show ?thesis by (intro conjI)
qed

theorem scrape_cap_witness:
  "map title (fst (scrape sample_lib BASE_URL [''https://www.facebook.com/x/following''] (Some 2) [] []))
     = [''Uncut Magazine'', ''Example Profile'']
   \<and> int (length (fst (scrape sample_lib BASE_URL [''https://www.facebook.com/x/following''] (Some 2) [] []))) = min 2 4
   \<and> length (fst (scrape sample_lib BASE_URL [''https://www.facebook.com/x/following''] (Some 0) [] [])) = 0
   \<and> int (length (fst (scrape sample_lib BASE_URL
         [''https://www.facebook.com/x/following'', ''https://www.facebook.com/y/following'']
         (Some 6) [] []))) \<le> 6
   \<and> scrape_profile bracket_lib BASE_URL ''https://www.facebook.com/x/following'' (Some 2)
       = Inl ValueError
   \<and> fst (scrape bracket_lib BASE_URL [''https://www.facebook.com/x/following''] (Some 2) [] [])
       = []"
proof -
  have a: "(0::int) \<le> 2" by simp
  have v: "scrape_profile bracket_lib BASE_URL ''https://www.facebook.com/x/following'' (Some 2)
       = Inl ValueError" by code_simp
  have w: "fst (scrape bracket_lib BASE_URL [''https://www.facebook.com/x/following''] (Some 2) [] [])
       = []"
    by (rule scrape_cap [THEN conjunct2, THEN conjunct2, THEN conjunct2, THEN conjunct2,
          THEN conjunct2, THEN mp, OF conjI, OF _ v]) simp
  have b: "(0::int) \<le> 0" by simp
  have c: "(0::int) \<le> 6" by simp
  note t = scrape_cap [THEN conjunct1, THEN mp, OF conjI, OF _ sample_scrape_profile]
  have p: "map title (fst (scrape sample_lib BASE_URL [''https://www.facebook.com/x/following''] (Some 2) [] []))
     = [''Uncut Magazine'', ''Example Profile'']
   \<and> int (length (fst (scrape sample_lib BASE_URL [''https://www.facebook.com/x/following''] (Some 2) [] []))) = min 2 4
   \<and> length (fst (scrape sample_lib BASE_URL [''https://www.facebook.com/x/following''] (Some 0) [] [])) = 0"
    using t [OF a] t [OF b] by simp
  have q: "int (length (fst (scrape sample_lib BASE_URL
         [''https://www.facebook.com/x/following'', ''https://www.facebook.com/y/following'']
         (Some 6) [] []))) \<le> 6"
    by (rule scrape_cap [THEN conjunct2, THEN conjunct2, THEN conjunct1, THEN mp, OF c])
  from p q v w show ?thesis by blast
qed

section \<open>Failing pages\<close>

lemma scrape_skip:
  "scrape_profile L base u remaining = Inl e \<Longrightarrow>
   \<not> (case remaining of None \<Rightarrow> False | Some r \<Rightarrow> r \<le> 0) \<Longrightarrow>
   scrape L base (u # us) remaining acc log = scrape L base us remaining acc (log @ [Info u, Error u e])"
  by simp

lemma scrape_filter_failing:
  "\<forall>u\<in>F. \<forall>lim. isl (scrape_profile L base u lim) \<Longrightarrow>
     fst (scrape L base us remaining acc log) =
     fst (scrape L base (filter (\<lambda>u. u \<notin> F) us) remaining acc log')"
proof (induction us arbitrary: remaining acc log log')
  case Nil
  show ?case by simp
next
  case (Cons u us)
  show ?case
  proof (cases "case remaining of None \<Rightarrow> False | Some r \<Rightarrow> r \<le> 0")
    case True
    then show ?thesis by (cases "filter (\<lambda>u. u \<notin> F) (u # us)") simp_all
  next
    case go: False
    show ?thesis
    proof (cases "u \<in> F")
      case True
      with Cons.prems have "isl (scrape_profile L base u remaining)" by blast
      then obtain e where "scrape_profile L base u remaining = Inl e"
        by (cases "scrape_profile L base u remaining") simp_all
      with go True Cons.IH [OF Cons.prems] show ?thesis by simp
    next
      case False
      with go Cons.IH [OF Cons.prems] show ?thesis
        by (cases "scrape_profile L base u remaining") simp_all
    qed
  qed
qed

lemma scrape_unlimited:
  "scrape L base us None acc log =
     (acc @ concat (map (\<lambda>u. case scrape_profile L base u None of Inl e \<Rightarrow> [] | Inr ps \<Rightarrow> ps) us),
      log @ concat (map (\<lambda>u. case scrape_profile L base u None of
                                Inl e \<Rightarrow> [Info u, Error u e] | Inr ps \<Rightarrow> [Info u]) us))"
proof (induction us arbitrary: acc log)
  case Nil
  show ?case by simp
next
  case (Cons u us)
  show ?case by (cases "scrape_profile L base u None") (simp_all add: Cons.IH)
qed

text \<open>
  C7. Failure isolation in \<open>scrape\<close>. A URL whose page scrape raises is logged (an
  \<open>Error\<close> entry after its \<open>Info\<close> entry) and skipped: the loop goes on with the same
  records and the same remaining budget. Hence removing from the input every URL whose
  page scrape always fails does not change the records returned; without a cap the result
  is the concatenation, in input order, of the records of the pages that succeed, and the
  log holds one error entry for each page that failed. \<open>scrape\<close> itself returns a list in
  every case: its model has no error result, as every \<open>Exception\<close> of a page is caught.
\<close>

theorem scrape_isolates_failures:
  "(scrape_profile L base u remaining = Inl e
      \<and> \<not> (case remaining of None \<Rightarrow> False | Some r \<Rightarrow> r \<le> 0) \<longrightarrow>
      scrape L base (u # us) remaining acc log =
        scrape L base us remaining acc (log @ [Info u, Error u e]))
   \<and> ((\<forall>u\<in>F. \<forall>lim. isl (scrape_profile L base u lim)) \<longrightarrow>
        fst (scrape L base us remaining [] []) =
        fst (scrape L base (filter (\<lambda>u. u \<notin> F) us) remaining [] []))
   \<and> fst (scrape L base us None [] []) =
        concat (map (\<lambda>u. case scrape_profile L base u None of Inl e \<Rightarrow> [] | Inr ps \<Rightarrow> ps) us)
   \<and> snd (scrape L base us None [] []) =
        concat (map (\<lambda>u. case scrape_profile L base u None of
                            Inl e \<Rightarrow> [Info u, Error u e] | Inr ps \<Rightarrow> [Info u]) us)"
proof -
  have c1: "scrape_profile L base u remaining = Inl e
      \<and> \<not> (case remaining of None \<Rightarrow> False | Some r \<Rightarrow> r \<le> 0) \<longrightarrow>
      scrape L base (u # us) remaining acc log =
        scrape L base us remaining acc (log @ [Info u, Error u e])"
    using scrape_skip [of L base u remaining e us acc log] by blast
  have c2: "(\<forall>u\<in>F. \<forall>lim. isl (scrape_profile L base u lim)) \<longrightarrow>
        fst (scrape L base us remaining [] []) =
        fst (scrape L base (filter (\<lambda>u. u \<notin> F) us) remaining [] [])"
    using scrape_filter_failing [of F L base us remaining "[]" "[]" "[]"] by blast
  have c3: "fst (scrape L base us None [] []) =
        concat (map (\<lambda>u. case scrape_profile L base u None of Inl e \<Rightarrow> [] | Inr ps \<Rightarrow> ps) us)"
    by (simp add: scrape_unlimited)
  have c4: "snd (scrape L base us None [] []) =
        concat (map (\<lambda>u. case scrape_profile L base u None of
                            Inl e \<Rightarrow> [Info u, Error u e] | Inr ps \<Rightarrow> [Info u]) us)"
    by (simp add: scrape_unlimited)
  from c1 c2 c3 c4 show ?thesis by (intro conjI)
qed

lemma sample_unreachable:
  "scrape_profile sample_lib BASE_URL ''https://unreachable.example/following'' lim = Inl RequestError"
  by (simp add: scrape_profile_def normalize_profile_url_def startswith_def sample_lib_def)

theorem scrape_isolates_failures_witness:
  "scrape_profile sample_lib BASE_URL ''https://unreachable.example/following'' (Some 3)
     = Inl RequestError
   \<and> scrape sample_lib BASE_URL
        [''https://unreachable.example/following'', ''https://www.facebook.com/x/following'']
        (Some 3) [] []
     = scrape sample_lib BASE_URL [''https://www.facebook.com/x/following''] (Some 3) []
        [Info ''https://unreachable.example/following'',
         Error ''https://unreachable.example/following'' RequestError]
   \<and> map title (fst (scrape sample_lib BASE_URL
        [''https://unreachable.example/following'', ''https://www.facebook.com/x/following'']
        (Some 3) [] []))
     = [''Uncut Magazine'', ''Example Profile'', ''Some Page'']
   \<and> fst (scrape sample_lib BASE_URL
        [''https://unreachable.example/following'', ''https://www.facebook.com/x/following'']
        (Some 3) [] [])
     = fst (scrape sample_lib BASE_URL [''https://www.facebook.com/x/following''] (Some 3) [] [])"
proof -
  have f: "scrape_profile sample_lib BASE_URL ''https://unreachable.example/following'' (Some 3)
     = Inl RequestError" by (rule sample_unreachable)
  have g: "\<not> (case Some (3::int) of None \<Rightarrow> False | Some r \<Rightarrow> r \<le> 0)" by simp
  have s: "scrape sample_lib BASE_URL
        [''https://unreachable.example/following'', ''https://www.facebook.com/x/following'']
        (Some 3) [] []
     = scrape sample_lib BASE_URL [''https://www.facebook.com/x/following''] (Some 3) []
        ([] @ [Info ''https://unreachable.example/following'',
         Error ''https://unreachable.example/following'' RequestError])"
    by (rule scrape_isolates_failures [THEN conjunct1, THEN mp, OF conjI, OF f g])
  have t: "map title (fst (scrape sample_lib BASE_URL [''https://www.facebook.com/x/following'']
        (Some 3) []
        [Info ''https://unreachable.example/following'',
         Error ''https://unreachable.example/following'' RequestError]))
     = [''Uncut Magazine'', ''Example Profile'', ''Some Page'']"
    by code_simp
  have h: "\<forall>u\<in>{''https://unreachable.example/following''}.
      \<forall>lim. isl (scrape_profile sample_lib BASE_URL u lim)"
    by (simp add: sample_unreachable)
  have k: "fst (scrape sample_lib BASE_URL
        [''https://unreachable.example/following'', ''https://www.facebook.com/x/following'']
        (Some 3) [] [])
     = fst (scrape sample_lib BASE_URL
        (filter (\<lambda>u. u \<notin> {''https://unreachable.example/following''})
          [''https://unreachable.example/following'', ''https://www.facebook.com/x/following''])
        (Some 3) [] [])"
    by (rule scrape_isolates_failures [THEN conjunct2, THEN conjunct1, THEN mp, OF h])
  have k': "filter (\<lambda>u. u \<notin> {''https://unreachable.example/following''})
          [''https://unreachable.example/following'', ''https://www.facebook.com/x/following'']
      = [''https://www.facebook.com/x/following'']" by simp
  show ?thesis using f s t k unfolding k' by simp
qed

section \<open>Identifier and user name\<close>

lemma search_id_nonempty: "search_id q = Some d \<Longrightarrow> d \<noteq> []"
  by (induction q) (auto split: if_splits)

lemma last_filter_nonempty:
  "filter (\<lambda>seg. seg \<noteq> []) xs \<noteq> [] \<Longrightarrow> last (filter (\<lambda>seg. seg \<noteq> []) xs) \<noteq> []"
proof -
  assume a: "filter (\<lambda>seg. seg \<noteq> []) xs \<noteq> []"
  then have "last (filter (\<lambda>seg. seg \<noteq> []) xs) \<in> set (filter (\<lambda>seg. seg \<noteq> []) xs)"
    by (rule last_in_set)
  then show ?thesis by simp
qed

lemma build_profile_id:
  assumes "build_profile_from_anchor L a full_url = Inr p"
  shows "\<exists>path query. urlparse L full_url = Inr (path, query)
     \<and> profile_id p =
        (if str_in ''profile.php'' path
         then (case search_id query of Some d \<Rightarrow> d | None \<Rightarrow> full_url)
         else if filter (\<lambda>seg. seg \<noteq> []) (split_on CHR ''/'' path) \<noteq> []
         then last (filter (\<lambda>seg. seg \<noteq> []) (split_on CHR ''/'' path))
         else full_url)"
proof (cases "urlparse L full_url")
  case (Inl e)
  with assms show ?thesis by (simp add: build_profile_from_anchor_def)
next
  case (Inr pq)
  obtain path query where pq: "pq = (path, query)" by (cases pq)
  show ?thesis
  proof (cases "str_in ''profile.php'' path")
    case True
    with assms Inr pq show ?thesis
      by (cases "search_id query")
         (auto simp: build_profile_from_anchor_def Let_def dest: search_id_nonempty)
  next
    case False
    with assms Inr pq show ?thesis
      using last_filter_nonempty [of "split_on CHR ''/'' path"]
      by (auto simp: build_profile_from_anchor_def Let_def)
  qed
qed

lemma build_profile_id_nonempty:
  assumes "build_profile_from_anchor L a full_url = Inr p" and "full_url \<noteq> []"
  shows "profile_id p \<noteq> []"
proof -
  from build_profile_id [OF assms(1)] obtain path query where
    h: "profile_id p =
        (if str_in ''profile.php'' path
         then (case search_id query of Some d \<Rightarrow> d | None \<Rightarrow> full_url)
         else if filter (\<lambda>seg. seg \<noteq> []) (split_on CHR ''/'' path) \<noteq> []
         then last (filter (\<lambda>seg. seg \<noteq> []) (split_on CHR ''/'' path))
         else full_url)" by blast
  show ?thesis unfolding h
    using assms(2) last_filter_nonempty [of "split_on CHR ''/'' path"]
    by (auto split: option.splits dest: search_id_nonempty)
qed

lemma normalize_nonempty:
  assumes "normalize_profile_url L base h = Inr u" and "h \<noteq> []"
    and "\<forall>x. urljoin L (base @ ''/'') x \<noteq> Inr []"
  shows "u \<noteq> []"
  using assms by (auto simp: normalize_profile_url_def split: if_splits)

lemma build_username:
  assumes "build_profile_from_anchor L a full_url = Inr p"
  shows "\<exists>path query. urlparse L full_url = Inr (path, query)
     \<and> username p =
        (if str_in ''profile.php'' path then None
         else if filter (\<lambda>seg. seg \<noteq> []) (split_on CHR ''/'' path) \<noteq> []
         then Some (last (filter (\<lambda>seg. seg \<noteq> []) (split_on CHR ''/'' path)))
         else None)"
proof (cases "urlparse L full_url")
  case (Inl e)
  with assms show ?thesis by (simp add: build_profile_from_anchor_def)
next
  case (Inr pq)
  obtain path query where pq: "pq = (path, query)" by (cases pq)
  show ?thesis
  proof (cases "str_in ''profile.php'' path")
    case True
    with assms Inr pq show ?thesis
      by (cases "search_id query") (auto simp: build_profile_from_anchor_def Let_def)
  next
    case False
    with assms Inr pq show ?thesis
      by (auto simp: build_profile_from_anchor_def Let_def)
  qed
qed

text \<open>
  C6. Every record of a page scrape has a non-empty \<open>id\<close> (field \<open>profile_id\<close>). With
  \<open>path\<close> and \<open>query\<close> the parts of the record's URL: when the path contains
  \<open>profile.php\<close>, the id is the digits of the first \<open>id=\<close> of the query followed by a
  digit, and the full URL when there is none; otherwise it is the last non-empty path
  segment, and the full URL when the path has none. The full URL is not empty: an anchor
  that is a candidate has a non-empty \<open>href\<close>, and \<open>_normalize_profile_url\<close> returns it,
  prefixes it, or joins it to the base, where the hypothesis is that \<open>urljoin\<close> on the
  non-empty base does not return the empty string.
\<close>

theorem profile_id_nonempty:
  assumes "scrape_profile L base u limit = Inr ps"
    and "\<forall>x. urljoin L (base @ ''/'') x \<noteq> Inr []"
  shows "\<forall>p\<in>set ps. profile_id p \<noteq> []
     \<and> (\<exists>path query. urlparse L (url p) = Inr (path, query)
          \<and> profile_id p =
             (if str_in ''profile.php'' path
              then (case search_id query of Some d \<Rightarrow> d | None \<Rightarrow> url p)
              else if filter (\<lambda>seg. seg \<noteq> []) (split_on CHR ''/'' path) \<noteq> []
              then last (filter (\<lambda>seg. seg \<noteq> []) (split_on CHR ''/'' path))
              else url p))"
proof
  fix p assume p: "p \<in> set ps"
  from scrape_profile_structure [OF assms(1)] obtain examined where
    "\<forall>p\<in>set ps. first_with L base examined p" by blast
  with p have "first_with L base examined p" by blast
  then obtain a where a: "href a \<noteq> []" "normalize_profile_url L base (href a) = Inr (url p)"
    "build_profile_from_anchor L a (url p) = Inr p"
    unfolding first_with_def by blast
  have ne: "url p \<noteq> []" using normalize_nonempty [OF a(2) a(1) assms(2)] .
  show "profile_id p \<noteq> []
     \<and> (\<exists>path query. urlparse L (url p) = Inr (path, query)
          \<and> profile_id p =
             (if str_in ''profile.php'' path
              then (case search_id query of Some d \<Rightarrow> d | None \<Rightarrow> url p)
              else if filter (\<lambda>seg. seg \<noteq> []) (split_on CHR ''/'' path) \<noteq> []
              then last (filter (\<lambda>seg. seg \<noteq> []) (split_on CHR ''/'' path))
              else url p))"
    using build_profile_id_nonempty [OF a(3) ne] build_profile_id [OF a(3)] by blast
qed

lemma sample_urljoin: "\<forall>x. urljoin sample_lib (BASE_URL @ ''/'') x \<noteq> Inr []"
  by (simp add: sample_lib_def)

theorem profile_id_nonempty_witness:
  "map profile_id (projr (scrape_profile sample_lib BASE_URL ''https://www.facebook.com/x/following'' None))
     = [''UncutMagazine'', ''example.profile'', ''12345'', ''4'']
   \<and> list_all (\<lambda>p. profile_id p \<noteq> [])
        (projr (scrape_profile sample_lib BASE_URL ''https://www.facebook.com/x/following'' None))"
  using profile_id_nonempty [OF sample_scrape_profile sample_urljoin] sample_scrape_profile
  by (simp add: list_all_iff)

text \<open>
  C4 (the code departs from the claim). The claim has \<open>username\<close> absent when the last
  path segment is numeric. The code assigns \<open>username = segments[-1]\<close> before it tests the
  segment with \<open>re.fullmatch(r"\\d+", username)\<close>, and both branches of that test only set
  \<open>profile_id\<close>: for the URL \<open>https://www.facebook.com/pages/category/SomePage/12345\<close> the
  record carries \<open>username = "12345"\<close>. Lemma \<open>build_username\<close> gives the field in general.
\<close>

theorem numeric_segment_keeps_username:
  "build_profile_from_anchor sample_lib
     (mk_anchor ''https://www.facebook.com/pages/category/SomePage/12345'' ''Some Page'' None)
     ''https://www.facebook.com/pages/category/SomePage/12345''
   = Inr \<lparr>profile_id = ''12345'', image = None, title = ''Some Page'', subtitle_text = None,
          url = ''https://www.facebook.com/pages/category/SomePage/12345'',
          username = Some ''12345'', profile_details = None\<rparr>"
  by code_simp

section \<open>The navigation blocklist\<close>

lemma friends_term: "str_in ''friends'' t \<Longrightarrow> list_ex (\<lambda>skip. str_in skip t) NAVIGATION_TERMS"
  by (simp add: NAVIGATION_TERMS_def)

lemma record_from_candidate:
  assumes "scrape_profile L base u limit = Inr ps" and "p \<in> set ps"
  shows "\<exists>html anchors a. find_all_a L html = Inr anchors
      \<and> a \<in> set (find_candidate_cards anchors) \<and> title p = text_of a"
proof -
  from scrape_profile_structure [OF assms(1)] obtain html anchors examined rest where
    h: "find_all_a L html = Inr anchors" "find_candidate_cards anchors = examined @ rest"
       "\<forall>p\<in>set ps. first_with L base examined p" by blast
  with assms(2) have "first_with L base examined p" by blast
  then obtain a where a: "a \<in> set examined" "build_profile_from_anchor L a (url p) = Inr p"
    unfolding first_with_def by fastforce
  have "a \<in> set (find_candidate_cards anchors)" using a(1) h(2) by simp
  moreover have "title p = text_of a" using a(2) by (rule build_title)
  ultimately show ?thesis using h(1) by blast
qed

text \<open>
  C10. The term \<open>friends\<close> is on the navigation blocklist, while \<open>/friends\<close> is an accepted
  URL pattern. An anchor whose visible text, lowered, contains \<open>friends\<close> is never a
  candidate, and no record of a page scrape has such a title; the anchor
  \<open>Friends of the Earth\<close> with the href \<open>https://www.facebook.com/friendsoftheearth\<close>, which
  matches a URL pattern, is dropped.
\<close>

theorem friends_blocklisted:
  "''friends'' \<in> set NAVIGATION_TERMS \<and> ''/friends'' \<in> set FOLLOWING_URL_PATTERNS
   \<and> (str_in ''friends'' (lower (text_of a)) \<longrightarrow> a \<notin> set (find_candidate_cards anchors))
   \<and> (scrape_profile L base u limit = Inr ps \<longrightarrow>
        (\<forall>p\<in>set ps. \<not> str_in ''friends'' (lower (title p))))
   \<and> list_ex (\<lambda>pattern. str_in pattern ''https://www.facebook.com/friendsoftheearth'')
        FOLLOWING_URL_PATTERNS
   \<and> find_candidate_cards
        [mk_anchor ''https://www.facebook.com/friendsoftheearth'' ''Friends of the Earth'' None]
      = []"
proof -
  have c1: "''friends'' \<in> set NAVIGATION_TERMS" by (simp add: NAVIGATION_TERMS_def)
  have c2: "''/friends'' \<in> set FOLLOWING_URL_PATTERNS" by (simp add: FOLLOWING_URL_PATTERNS_def)
  have c3: "str_in ''friends'' (lower (text_of a)) \<longrightarrow> a \<notin> set (find_candidate_cards anchors)"
    using friends_term [of "lower (text_of a)"] by (simp add: candidate_iff)
  have c4: "scrape_profile L base u limit = Inr ps \<longrightarrow>
        (\<forall>p\<in>set ps. \<not> str_in ''friends'' (lower (title p)))"
  proof (intro impI ballI)
    fix p assume s: "scrape_profile L base u limit = Inr ps" and p: "p \<in> set ps"
    from record_from_candidate [OF s p] obtain anchors a where
      a: "a \<in> set (find_candidate_cards anchors)" "title p = text_of a" by blast
    from a(1) have "\<not> list_ex (\<lambda>skip. str_in skip (lower (text_of a))) NAVIGATION_TERMS"
      by (simp add: candidate_iff)
    then show "\<not> str_in ''friends'' (lower (title p))"
      using friends_term [of "lower (text_of a)"] a(2) by auto
  qed
  have c5: "list_ex (\<lambda>pattern. str_in pattern ''https://www.facebook.com/friendsoftheearth'')
        FOLLOWING_URL_PATTERNS" by code_simp
  have c6: "find_candidate_cards
        [mk_anchor ''https://www.facebook.com/friendsoftheearth'' ''Friends of the Earth'' None]
      = []" by code_simp
  from c1 c2 c3 c4 c5 c6 show ?thesis by (intro conjI)
qed

theorem friends_blocklisted_witness:
  "str_in ''friends'' (lower (text_of
      (mk_anchor ''https://www.facebook.com/friendsoftheearth'' ''Friends of the Earth'' None)))
   \<and> mk_anchor ''https://www.facebook.com/friendsoftheearth'' ''Friends of the Earth'' None
      \<notin> set (find_candidate_cards
          (SAMPLE_ANCHORS @
           [mk_anchor ''https://www.facebook.com/friendsoftheearth'' ''Friends of the Earth'' None]))
   \<and> find_candidate_cards
        [mk_anchor ''https://www.facebook.com/friendsoftheearth'' ''Earth First'' None]
      = [mk_anchor ''https://www.facebook.com/friendsoftheearth'' ''Earth First'' None]"
proof -
  have h: "str_in ''friends'' (lower (text_of
      (mk_anchor ''https://www.facebook.com/friendsoftheearth'' ''Friends of the Earth'' None)))"
    by code_simp
  have e: "find_candidate_cards
        [mk_anchor ''https://www.facebook.com/friendsoftheearth'' ''Earth First'' None]
      = [mk_anchor ''https://www.facebook.com/friendsoftheearth'' ''Earth First'' None]"
    by code_simp
  from friends_blocklisted [THEN conjunct2, THEN conjunct2, THEN conjunct1, THEN mp, OF h] h e
  show ?thesis by blast
qed

section \<open>Relative time parsing\<close>

lemmas text_simps =
  strip_def lower_def lower_char_def UPPER_CHARS_def LOWER_CHARS_def is_space_def startswith_def is_digit_def is_word_def WORD_CHARS_def
  word_boundary_def match_relative_at_def match_hhmm_at_def int_of_digits_def digit_value_def
  MINUTES_UNITS_def HOURS_UNITS_def DAYS_UNITS_def

lemma ensure_utc_result:
  "ensure_utc T = Inr now \<Longrightarrow>
     utcoffset now = Some 0 \<and> wall now = wall T - (case utcoffset T of None \<Rightarrow> 0 | Some off \<Rightarrow> off)"
  by (auto simp: ensure_utc_def split: option.splits if_splits)

lemma sub_timedelta_offset: "sub_timedelta dt td = Inr r \<Longrightarrow> utcoffset r = utcoffset dt"
  by (auto simp: sub_timedelta_def split: if_splits)

lemma minus_units_offset: "minus_units dt unit n = Inr r \<Longrightarrow> utcoffset r = utcoffset dt"
  by (auto simp: minus_units_def split: sum.splits dest: sub_timedelta_offset)

lemma replace_hm_offset: "replace_hm dt h m = Inr r \<Longrightarrow> utcoffset r = utcoffset dt"
  by (auto simp: replace_hm_def split: if_splits)

lemma try_formats_offset:
  "try_formats sp text fmts now = Inr r \<Longrightarrow> utcoffset now = Some 0 \<Longrightarrow> utcoffset r = Some 0"
  by (induction fmts) (auto split: option.splits dest: ensure_utc_result)

lemma parse_result_utc:
  assumes "parse_relative_time sp clock text (Some T) = Inr r"
  shows "utcoffset r = Some 0"
proof -
  from assms obtain now where n: "ensure_utc T = Inr now"
    by (cases "ensure_utc T") (simp_all add: parse_relative_time_def)
  then have u: "utcoffset now = Some 0" by (simp add: ensure_utc_result)
  have y: "utcoffset r = Some 0"
    if "sub_timedelta now US_PER_DAY = Inr dt" "replace_hm dt h m = Inr r" for dt h m
    using that u sub_timedelta_offset [OF that(1)] replace_hm_offset [OF that(2)] by simp
  from assms n show ?thesis
    unfolding parse_relative_time_def Let_def
    using u y
    by (auto split: if_splits sum.splits option.splits prod.splits
        dest: sub_timedelta_offset minus_units_offset try_formats_offset)
qed

lemma parse_5_mins:
  "parse_relative_time sp clock ''5 mins'' (Some T) =
     (case ensure_utc T of Inl e \<Rightarrow> Inl e | Inr now \<Rightarrow> minus_units now US_PER_MINUTE 5)"
  by (simp add: parse_relative_time_def text_simps split: sum.splits)

lemma parse_2_hours_ago:
  "parse_relative_time sp clock ''2 hours ago'' (Some T) =
     (case ensure_utc T of Inl e \<Rightarrow> Inl e | Inr now \<Rightarrow> minus_units now US_PER_HOUR 2)"
  by (simp add: parse_relative_time_def text_simps split: sum.splits)

lemma parse_just_now:
  "parse_relative_time sp clock ''just now'' (Some T) = ensure_utc T"
  by (simp add: parse_relative_time_def text_simps split: sum.splits)

lemma parse_yesterday_5_mins:
  "parse_relative_time sp clock ''yesterday 5 mins'' (Some T) =
     (case ensure_utc T of Inl e \<Rightarrow> Inl e | Inr now \<Rightarrow> sub_timedelta now US_PER_DAY)"
  by (simp add: parse_relative_time_def text_simps split: sum.splits)

lemma parse_2_hours_5_mins:
  "parse_relative_time sp clock ''2 hours 5 mins'' (Some T) =
     (case ensure_utc T of Inl e \<Rightarrow> Inl e | Inr now \<Rightarrow> minus_units now US_PER_MINUTE 5)"
  by (simp add: parse_relative_time_def text_simps split: sum.splits)

lemma parse_3_days_2_hours:
  "parse_relative_time sp clock ''3 days 2 hours'' (Some T) =
     (case ensure_utc T of Inl e \<Rightarrow> Inl e | Inr now \<Rightarrow> minus_units now US_PER_HOUR 2)"
  by (simp add: parse_relative_time_def text_simps split: sum.splits)

lemma minus_units_small:
  assumes "0 \<le> n" and "n * unit div US_PER_DAY \<le> 999999999" and "0 \<le> unit"
  shows "minus_units now unit n =
       (if in_range (wall now - n * unit) then Inr (now\<lparr>wall := wall now - n * unit\<rparr>)
        else Inl OverflowError)"
proof -
  have "0 \<le> n * unit" using assms(1,3) by simp
  then have "0 \<le> n * unit div US_PER_DAY" by (simp add: US_PER_DAY_def pos_imp_zdiv_nonneg_iff)
  then have "timedelta (n * unit) = Inr (n * unit)" using assms(2) by (simp add: timedelta_def)
  then show ?thesis by (simp add: minus_units_def sub_timedelta_def)
qed

lemma parse_yesterday_bad:
  "isl (parse_relative_time sp clock ''yesterday at 25:00'' now_arg)"
  by (simp add: parse_relative_time_def text_simps replace_hm_def split: sum.splits option.splits)

lemma parse_garbage:
  "\<forall>fmt\<in>set FORMATS. sp ''garbage text'' fmt = None \<Longrightarrow>
     parse_relative_time sp clock ''garbage text'' (Some T) = ensure_utc T"
  by (simp add: parse_relative_time_def text_simps FORMATS_def split: sum.splits)

text \<open>
  C3 (the code departs from the claim). The claim, as the docstring (\<open>If parsing fails,
  returns the current time\<close>), has \<open>parse_relative_time\<close> return for every text. In the
  \<open>yesterday\<close> branch the hour and minute found by \<open>(\\d{1,2}):(\\d{2})\<close> go to
  \<open>dt.replace\<close> unchecked: for the text \<open>yesterday at 25:00\<close> the call raises \<open>ValueError\<close>,
  whatever the reference instant is (lemma \<open>parse_yesterday_bad\<close>). The second half of
  the claim holds: \<open>garbage text\<close> matches no form, and where \<open>strptime\<close> rejects it the
  result is the reference instant (lemma \<open>parse_garbage\<close>).
\<close>

theorem yesterday_bad_time_raises:
  "parse_relative_time (\<lambda>text fmt. None) SAMPLE_NOW ''yesterday at 25:00'' (Some SAMPLE_NOW)
     = Inl ValueError"
  by code_simp

lemma parse_5_nbsp_mins:
  "parse_relative_time sp clock (''5'' @ [CHR 0xA0] @ ''mins'') (Some T) =
     (case ensure_utc T of Inl e \<Rightarrow> Inl e | Inr now \<Rightarrow> minus_units now US_PER_MINUTE 5)"
  by (simp add: parse_relative_time_def text_simps split: sum.splits)

lemma no_relative_dias: "no_relative_form (lower (strip (''5 d'' @ [CHR 0xED] @ ''as'')))"
  by (simp add: no_relative_form_def text_simps)

lemma no_relative_garbage: "no_relative_form (lower (strip ''garbage text''))"
  by (simp add: no_relative_form_def text_simps)

lemma no_relative_date: "no_relative_form (lower (strip ''2024-01-01''))"
  by (simp add: no_relative_form_def text_simps)

text \<open>
  C9. The recognized forms. With \<open>now\<close> the reference instant \<open>T\<close> normalized to UTC
  (\<open>_ensure_utc\<close>: a naive \<open>T\<close> is taken as UTC, an aware one is converted):
  \<open>"5 mins"\<close> gives \<open>now\<close> minus 5 minutes, \<open>"2 hours ago"\<close> gives \<open>now\<close> minus 2 hours
  and \<open>"just now"\<close> gives \<open>now\<close>, where the subtraction is the one of \<open>datetime\<close>: it is an
  \<open>OverflowError\<close> when the result would lie before \<open>datetime.min\<close>. The forms are tried
  in the order: the exact tokens, then the prefix \<open>yesterday\<close>, then minutes, hours and
  days, then the absolute formats, then the fallback; so \<open>"yesterday 5 mins"\<close> is a
  yesterday, \<open>"2 hours 5 mins"\<close> is 5 minutes and \<open>"3 days 2 hours"\<close> is 2 hours. A text
  that is none of the relative forms is given to \<open>strptime\<close> with the three formats in
  their order: the first format that parses it decides, its instant normalized to UTC,
  and when none does the result is \<open>now\<close>. White space and word boundaries are those of
  Python: a no-break space separates \<open>5\<close> and \<open>mins\<close>, and in \<open>5 d\<close> followed by an
  accented \<open>i\<close> and \<open>as\<close> the \<open>d\<close> is not a unit, as a letter follows it. Every instant
  returned carries the UTC offset.
\<close>

theorem parse_relative_time_forms:
  "(ensure_utc T = Inr now \<longrightarrow>
       parse_relative_time sp clock ''5 mins'' (Some T) =
         (if in_range (wall now - 5 * US_PER_MINUTE)
          then Inr (now\<lparr>wall := wall now - 5 * US_PER_MINUTE\<rparr>) else Inl OverflowError)
     \<and> parse_relative_time sp clock ''2 hours ago'' (Some T) =
         (if in_range (wall now - 2 * US_PER_HOUR)
          then Inr (now\<lparr>wall := wall now - 2 * US_PER_HOUR\<rparr>) else Inl OverflowError)
     \<and> parse_relative_time sp clock ''just now'' (Some T) = Inr now
     \<and> utcoffset now = Some 0
     \<and> wall now = wall T - (case utcoffset T of None \<Rightarrow> 0 | Some off \<Rightarrow> off))
   \<and> (ensure_utc T = Inr now \<and> s = lower (strip text) \<longrightarrow>
       (s = ''just now'' \<or> s = ''now'' \<longrightarrow>
          parse_relative_time sp clock text (Some T) = Inr now)
     \<and> (s \<noteq> ''just now'' \<and> s \<noteq> ''now'' \<and> startswith s ''yesterday'' \<longrightarrow>
          parse_relative_time sp clock text (Some T) =
            (case sub_timedelta now US_PER_DAY of
               Inl e \<Rightarrow> Inl e
             | Inr dt \<Rightarrow>
                 (case search_hhmm s of
                    None \<Rightarrow> Inr dt
                  | Some (h, m) \<Rightarrow> replace_hm dt (int_of_digits h) (int_of_digits m))))
     \<and> (s \<noteq> ''just now'' \<and> s \<noteq> ''now'' \<and> \<not> startswith s ''yesterday''
          \<and> search_relative MINUTES_UNITS s = Some v \<longrightarrow>
          parse_relative_time sp clock text (Some T) =
            minus_units now US_PER_MINUTE (int_of_digits v))
     \<and> (s \<noteq> ''just now'' \<and> s \<noteq> ''now'' \<and> \<not> startswith s ''yesterday''
          \<and> search_relative MINUTES_UNITS s = None \<and> search_relative HOURS_UNITS s = Some v \<longrightarrow>
          parse_relative_time sp clock text (Some T) =
            minus_units now US_PER_HOUR (int_of_digits v))
     \<and> (s \<noteq> ''just now'' \<and> s \<noteq> ''now'' \<and> \<not> startswith s ''yesterday''
          \<and> search_relative MINUTES_UNITS s = None \<and> search_relative HOURS_UNITS s = None
          \<and> search_relative DAYS_UNITS s = Some v \<longrightarrow>
          parse_relative_time sp clock text (Some T) =
            minus_units now US_PER_DAY (int_of_digits v))
     \<and> (no_relative_form s \<and> sp text ''%Y-%m-%d %H:%M:%S'' = Some dt \<longrightarrow>
          parse_relative_time sp clock text (Some T) = ensure_utc dt)
     \<and> (no_relative_form s \<and> sp text ''%Y-%m-%d %H:%M:%S'' = None
          \<and> sp text ''%Y-%m-%d'' = Some dt \<longrightarrow>
          parse_relative_time sp clock text (Some T) = ensure_utc dt)
     \<and> (no_relative_form s \<and> sp text ''%Y-%m-%d %H:%M:%S'' = None
          \<and> sp text ''%Y-%m-%d'' = None \<and> sp text ''%d.%m.%Y %H:%M'' = Some dt \<longrightarrow>
          parse_relative_time sp clock text (Some T) = ensure_utc dt)
     \<and> (no_relative_form s \<and> sp text ''%Y-%m-%d %H:%M:%S'' = None
          \<and> sp text ''%Y-%m-%d'' = None \<and> sp text ''%d.%m.%Y %H:%M'' = None \<longrightarrow>
          parse_relative_time sp clock text (Some T) = Inr now))
   \<and> parse_relative_time sp clock ''yesterday 5 mins'' (Some T) =
       (case ensure_utc T of Inl e \<Rightarrow> Inl e | Inr n \<Rightarrow> sub_timedelta n US_PER_DAY)
   \<and> parse_relative_time sp clock ''2 hours 5 mins'' (Some T) =
       parse_relative_time sp clock ''5 mins'' (Some T)
   \<and> parse_relative_time sp clock ''3 days 2 hours'' (Some T) =
       parse_relative_time sp clock ''2 hours ago'' (Some T)
   \<and> parse_relative_time sp clock (''5'' @ [CHR 0xA0] @ ''mins'') (Some T) =
       parse_relative_time sp clock ''5 mins'' (Some T)
   \<and> no_relative_form (lower (strip (''5 d'' @ [CHR 0xED] @ ''as'')))
   \<and> no_relative_form (lower (strip ''garbage text''))
   \<and> (parse_relative_time sp clock text (Some T) = Inr r \<longrightarrow> utcoffset r = Some 0)"
proof -
  have m5: "minus_units n US_PER_MINUTE 5 =
       (if in_range (wall n - 5 * US_PER_MINUTE)
        then Inr (n\<lparr>wall := wall n - 5 * US_PER_MINUTE\<rparr>) else Inl OverflowError)" for n
    by (rule minus_units_small) (simp_all add: US_PER_MINUTE_def US_PER_DAY_def)
  have h2: "minus_units n US_PER_HOUR 2 =
       (if in_range (wall n - 2 * US_PER_HOUR)
        then Inr (n\<lparr>wall := wall n - 2 * US_PER_HOUR\<rparr>) else Inl OverflowError)" for n
    by (rule minus_units_small) (simp_all add: US_PER_HOUR_def US_PER_DAY_def)
  have c1: "ensure_utc T = Inr now \<longrightarrow>
       parse_relative_time sp clock ''5 mins'' (Some T) =
         (if in_range (wall now - 5 * US_PER_MINUTE)
          then Inr (now\<lparr>wall := wall now - 5 * US_PER_MINUTE\<rparr>) else Inl OverflowError)
     \<and> parse_relative_time sp clock ''2 hours ago'' (Some T) =
         (if in_range (wall now - 2 * US_PER_HOUR)
          then Inr (now\<lparr>wall := wall now - 2 * US_PER_HOUR\<rparr>) else Inl OverflowError)
     \<and> parse_relative_time sp clock ''just now'' (Some T) = Inr now
     \<and> utcoffset now = Some 0
     \<and> wall now = wall T - (case utcoffset T of None \<Rightarrow> 0 | Some off \<Rightarrow> off)"
  proof
    assume e: "ensure_utc T = Inr now"
    show "parse_relative_time sp clock ''5 mins'' (Some T) =
         (if in_range (wall now - 5 * US_PER_MINUTE)
          then Inr (now\<lparr>wall := wall now - 5 * US_PER_MINUTE\<rparr>) else Inl OverflowError)
     \<and> parse_relative_time sp clock ''2 hours ago'' (Some T) =
         (if in_range (wall now - 2 * US_PER_HOUR)
          then Inr (now\<lparr>wall := wall now - 2 * US_PER_HOUR\<rparr>) else Inl OverflowError)
     \<and> parse_relative_time sp clock ''just now'' (Some T) = Inr now
     \<and> utcoffset now = Some 0
     \<and> wall now = wall T - (case utcoffset T of None \<Rightarrow> 0 | Some off \<Rightarrow> off)"
      unfolding parse_5_mins parse_2_hours_ago parse_just_now
      using e ensure_utc_result [OF e] m5 [of now] h2 [of now] by simp
  qed
  have c2: "ensure_utc T = Inr now \<and> s = lower (strip text) \<longrightarrow>
       (s = ''just now'' \<or> s = ''now'' \<longrightarrow>
          parse_relative_time sp clock text (Some T) = Inr now)
     \<and> (s \<noteq> ''just now'' \<and> s \<noteq> ''now'' \<and> startswith s ''yesterday'' \<longrightarrow>
          parse_relative_time sp clock text (Some T) =
            (case sub_timedelta now US_PER_DAY of
               Inl e \<Rightarrow> Inl e
             | Inr dt \<Rightarrow>
                 (case search_hhmm s of
                    None \<Rightarrow> Inr dt
                  | Some (h, m) \<Rightarrow> replace_hm dt (int_of_digits h) (int_of_digits m))))
     \<and> (s \<noteq> ''just now'' \<and> s \<noteq> ''now'' \<and> \<not> startswith s ''yesterday''
          \<and> search_relative MINUTES_UNITS s = Some v \<longrightarrow>
          parse_relative_time sp clock text (Some T) =
            minus_units now US_PER_MINUTE (int_of_digits v))
     \<and> (s \<noteq> ''just now'' \<and> s \<noteq> ''now'' \<and> \<not> startswith s ''yesterday''
          \<and> search_relative MINUTES_UNITS s = None \<and> search_relative HOURS_UNITS s = Some v \<longrightarrow>
          parse_relative_time sp clock text (Some T) =
            minus_units now US_PER_HOUR (int_of_digits v))
     \<and> (s \<noteq> ''just now'' \<and> s \<noteq> ''now'' \<and> \<not> startswith s ''yesterday''
          \<and> search_relative MINUTES_UNITS s = None \<and> search_relative HOURS_UNITS s = None
          \<and> search_relative DAYS_UNITS s = Some v \<longrightarrow>
          parse_relative_time sp clock text (Some T) =
            minus_units now US_PER_DAY (int_of_digits v))
     \<and> (no_relative_form s \<and> sp text ''%Y-%m-%d %H:%M:%S'' = Some dt \<longrightarrow>
          parse_relative_time sp clock text (Some T) = ensure_utc dt)
     \<and> (no_relative_form s \<and> sp text ''%Y-%m-%d %H:%M:%S'' = None
          \<and> sp text ''%Y-%m-%d'' = Some dt \<longrightarrow>
          parse_relative_time sp clock text (Some T) = ensure_utc dt)
     \<and> (no_relative_form s \<and> sp text ''%Y-%m-%d %H:%M:%S'' = None
          \<and> sp text ''%Y-%m-%d'' = None \<and> sp text ''%d.%m.%Y %H:%M'' = Some dt \<longrightarrow>
          parse_relative_time sp clock text (Some T) = ensure_utc dt)
     \<and> (no_relative_form s \<and> sp text ''%Y-%m-%d %H:%M:%S'' = None
          \<and> sp text ''%Y-%m-%d'' = None \<and> sp text ''%d.%m.%Y %H:%M'' = None \<longrightarrow>
          parse_relative_time sp clock text (Some T) = Inr now)"
    by (auto simp: parse_relative_time_def Let_def no_relative_form_def FORMATS_def)
  have c3: "parse_relative_time sp clock ''yesterday 5 mins'' (Some T) =
       (case ensure_utc T of Inl e \<Rightarrow> Inl e | Inr n \<Rightarrow> sub_timedelta n US_PER_DAY)"
    by (rule parse_yesterday_5_mins)
  have c4: "parse_relative_time sp clock ''2 hours 5 mins'' (Some T) =
       parse_relative_time sp clock ''5 mins'' (Some T)"
    by (simp only: parse_2_hours_5_mins parse_5_mins)
  have c5: "parse_relative_time sp clock ''3 days 2 hours'' (Some T) =
       parse_relative_time sp clock ''2 hours ago'' (Some T)"
    by (simp only: parse_3_days_2_hours parse_2_hours_ago)
  have c6: "parse_relative_time sp clock text (Some T) = Inr r \<longrightarrow> utcoffset r = Some 0"
    using parse_result_utc [of sp clock "text" T r] by blast
  have c7: "parse_relative_time sp clock (''5'' @ [CHR 0xA0] @ ''mins'') (Some T) =
       parse_relative_time sp clock ''5 mins'' (Some T)"
    by (simp only: parse_5_nbsp_mins parse_5_mins)
  from c1 c2 c3 c4 c5 c7 no_relative_dias no_relative_garbage c6
  show ?thesis by (intro conjI)
qed

lemma sample_now_utc: "ensure_utc SAMPLE_NOW = Inr SAMPLE_NOW"
  by (simp add: ensure_utc_def SAMPLE_NOW_def in_range_def MAX_WALL_def)

theorem parse_relative_time_forms_witness:
  "ensure_utc SAMPLE_NOW = Inr SAMPLE_NOW
   \<and> parse_relative_time sample_strptime SAMPLE_NOW ''5 mins'' (Some SAMPLE_NOW)
       = Inr \<lparr>wall = wall SAMPLE_NOW - 300000000, utcoffset = Some 0\<rparr>
   \<and> parse_relative_time sample_strptime SAMPLE_NOW ''2 hours ago'' (Some SAMPLE_NOW)
       = Inr \<lparr>wall = wall SAMPLE_NOW - 7200000000, utcoffset = Some 0\<rparr>
   \<and> parse_relative_time sample_strptime SAMPLE_NOW ''just now'' (Some SAMPLE_NOW)
       = Inr SAMPLE_NOW
   \<and> parse_relative_time sample_strptime SAMPLE_NOW ''2024-01-01'' (Some SAMPLE_NOW)
       = Inr \<lparr>wall = 738885 * 86400000000, utcoffset = Some 0\<rparr>
   \<and> parse_relative_time sample_strptime SAMPLE_NOW ''garbage text'' (Some SAMPLE_NOW)
       = Inr SAMPLE_NOW"
proof -
  note t = parse_relative_time_forms [of SAMPLE_NOW SAMPLE_NOW sample_strptime SAMPLE_NOW]
  have e: "parse_relative_time sample_strptime SAMPLE_NOW ''5 mins'' (Some SAMPLE_NOW)
       = Inr \<lparr>wall = wall SAMPLE_NOW - 300000000, utcoffset = Some 0\<rparr>
   \<and> parse_relative_time sample_strptime SAMPLE_NOW ''2 hours ago'' (Some SAMPLE_NOW)
       = Inr \<lparr>wall = wall SAMPLE_NOW - 7200000000, utcoffset = Some 0\<rparr>
   \<and> parse_relative_time sample_strptime SAMPLE_NOW ''just now'' (Some SAMPLE_NOW)
       = Inr SAMPLE_NOW"
    using t [THEN conjunct1, THEN mp, OF sample_now_utc] sample_now_utc
    by (simp add: SAMPLE_NOW_def in_range_def MAX_WALL_def US_PER_MINUTE_def US_PER_HOUR_def)
  have d: "sample_strptime ''2024-01-01'' ''%Y-%m-%d %H:%M:%S'' = None
      \<and> sample_strptime ''2024-01-01'' ''%Y-%m-%d''
          = Some \<lparr>wall = 738885 * 86400000000, utcoffset = None\<rparr>"
    by (simp add: sample_strptime_def)
  have g: "sample_strptime ''garbage text'' ''%Y-%m-%d %H:%M:%S'' = None
      \<and> sample_strptime ''garbage text'' ''%Y-%m-%d'' = None
      \<and> sample_strptime ''garbage text'' ''%d.%m.%Y %H:%M'' = None"
    by (simp add: sample_strptime_def)
  have u: "ensure_utc \<lparr>wall = 738885 * 86400000000, utcoffset = None\<rparr>
      = Inr \<lparr>wall = 738885 * 86400000000, utcoffset = Some 0\<rparr>"
    by (simp add: ensure_utc_def)
  have f: "parse_relative_time sample_strptime SAMPLE_NOW ''2024-01-01'' (Some SAMPLE_NOW)
       = Inr \<lparr>wall = 738885 * 86400000000, utcoffset = Some 0\<rparr>"
    using t [of "lower (strip ''2024-01-01'')" "''2024-01-01''"
        _ "\<lparr>wall = 738885 * 86400000000, utcoffset = None\<rparr>",
        THEN conjunct2, THEN conjunct1, THEN mp, OF conjI, OF sample_now_utc refl]
      no_relative_date d u
    by simp
  have h: "parse_relative_time sample_strptime SAMPLE_NOW ''garbage text'' (Some SAMPLE_NOW)
       = Inr SAMPLE_NOW"
    using t [of "lower (strip ''garbage text'')" "''garbage text''",
        THEN conjunct2, THEN conjunct1, THEN mp, OF conjI, OF sample_now_utc refl]
      no_relative_garbage g
    by simp
  from sample_now_utc e f h show ?thesis by (intro conjI) simp_all
qed

section \<open>Export formats\<close>

lemma export_data_rejects:
  "resolve_format p fmt \<notin> set SUPPORTED \<Longrightarrow>
     export_data S fs records p fmt = (Some ValueError, fs)"
  by (simp add: export_data_def)

lemma mkdir_parents_error: "mkdir_parents fs d = Inl e \<Longrightarrow> e \<noteq> ValueError"
  by (auto simp: mkdir_parents_def split: if_splits)

lemma ensure_parent_dir_error: "ensure_parent_dir fs p = Inl e \<Longrightarrow> e \<noteq> ValueError"
  by (auto simp: ensure_parent_dir_def split: if_splits dest: mkdir_parents_error)

lemma create_in_parent_error: "create_in_parent fs p c = Inl e \<Longrightarrow> e \<noteq> ValueError"
  by (auto simp: create_in_parent_def split: if_splits)

lemma write_file_error: "write_file fs p c = Inl e \<Longrightarrow> e \<noteq> ValueError"
  by (auto simp: write_file_def split: if_splits dest: create_in_parent_error)

lemma touch_error: "touch fs p = Inl e \<Longrightarrow> e \<noteq> ValueError"
  by (auto simp: touch_def split: if_splits dest: create_in_parent_error)

lemma export_csv_error: "export_csv S fs records p = Inl e \<Longrightarrow> e \<noteq> ValueError"
  by (auto simp: export_csv_def split: if_splits dest: write_file_error touch_error)

lemma export_data_value_error:
  "fst (export_data S fs records p fmt) = Some ValueError \<longleftrightarrow>
     resolve_format p fmt \<notin> set SUPPORTED"
proof (cases "resolve_format p fmt \<in> set SUPPORTED")
  case False
  then show ?thesis by (simp add: export_data_rejects)
next
  case True
  have "fst (export_data S fs records p fmt) \<noteq> Some ValueError"
  proof (cases "ensure_parent_dir fs p")
    case (Inl e)
    with True ensure_parent_dir_error [OF Inl] show ?thesis
      by (simp add: export_data_def Let_def)
  next
    case (Inr fs1)
    with True show ?thesis
      by (auto simp: export_data_def Let_def export_json_def export_jsonl_def
          split: sum.splits dest: write_file_error export_csv_error)
  qed
  with True show ?thesis by simp
qed

lemma ensure_parent_dir_ok:
  assumes "destination_ok fs p"
  shows "\<exists>fs1. ensure_parent_dir fs p = Inr fs1 \<and> is_dir fs1 (parent p) \<and> \<not> is_dir fs1 p
     \<and> files fs1 = files fs"
proof -
  from assms have nd: "\<not> is_dir fs p" and nf: "\<not> list_ex (is_file fs) (prefixes (parent p))"
    by (simp_all add: destination_ok_def)
  from nd have pne: "p \<noteq> []" and pd: "p \<notin> dirs fs" by (simp_all add: is_dir_def)
  have "parent p \<in> set (prefixes (parent p))" by (simp add: in_set_prefixes)
  with nf have npf: "\<not> is_file fs (parent p)" by (auto simp: list_ex_iff)
  have notpre: "p \<notin> set (prefixes (parent p))"
  proof
    assume "p \<in> set (prefixes (parent p))"
    then have "prefix p (butlast p)" by (simp add: in_set_prefixes parent_def)
    then have "length p \<le> length (butlast p)" by (rule prefix_length_le)
    moreover have "length (butlast p) < length p"
      using pne by (cases p rule: rev_cases) simp_all
    ultimately show False by linarith
  qed
  show ?thesis
  proof (cases "path_exists fs (parent p)")
    case True
    with npf have "is_dir fs (parent p)" by (simp add: path_exists_def)
    with True nd show ?thesis by (simp add: ensure_parent_dir_def)
  next
    case False
    with npf nf have "ensure_parent_dir fs p = Inr (fs\<lparr>dirs := dirs fs \<union> set (prefixes (parent p))\<rparr>)"
      by (simp add: ensure_parent_dir_def mkdir_parents_def)
    moreover have "is_dir (fs\<lparr>dirs := dirs fs \<union> set (prefixes (parent p))\<rparr>) (parent p)"
      by (simp add: is_dir_def in_set_prefixes)
    moreover have "\<not> is_dir (fs\<lparr>dirs := dirs fs \<union> set (prefixes (parent p))\<rparr>) p"
      using pne pd notpre by (simp add: is_dir_def)
    ultimately show ?thesis by simp
  qed
qed

lemma lower_csv: "lower ''csv'' = ''csv''" "lower ''json'' = ''json''" "lower ''jsonl'' = ''jsonl''"
  by (simp_all add: lower_def lower_char_def UPPER_CHARS_def LOWER_CHARS_def)

lemma export_data_ok:
  assumes "destination_ok fs p" and "resolve_format p fmt \<in> set SUPPORTED"
  shows "fst (export_data S fs records p fmt) = None"
proof -
  from ensure_parent_dir_ok [OF assms(1)] obtain fs1 where
    h: "ensure_parent_dir fs p = Inr fs1" "is_dir fs1 (parent p)" "\<not> is_dir fs1 p" by blast
  have w: "write_file fs1 p c = Inr (fs1\<lparr>files := (files fs1)(p \<mapsto> c)\<rparr>)" for c
    using h(2,3) by (simp add: write_file_def create_in_parent_def)
  have t: "\<exists>fs2. touch fs1 p = Inr fs2"
    using h(2) by (simp add: touch_def create_in_parent_def)
  from t obtain fs2 where t': "touch fs1 p = Inr fs2" by blast
  show ?thesis using assms(2) h(1) w t'
    by (simp add: export_data_def Let_def export_json_def export_jsonl_def export_csv_def)
qed




text \<open>
  C5, as stated, fails: the claim has \<open>export_data\<close> accept exactly \<open>json\<close>, \<open>jsonlines\<close>
  and \<open>csv\<close>. The set the code tests is \<open>{"json", "jsonl", "csv"}\<close>, after lowering: the
  format \<open>jsonlines\<close> is rejected with \<open>ValueError\<close>, while \<open>jsonl\<close> and \<open>JSON\<close>, which are
  outside the claim's set, are accepted.
\<close>

theorem export_data_jsonlines_rejected:
  "export_data sample_serializers EMPTY_FS [] [''out'', ''data.txt''] (Some ''jsonlines'')
     = (Some ValueError, EMPTY_FS)
   \<and> fst (export_data sample_serializers EMPTY_FS [] [''out'', ''data.txt''] (Some ''jsonl'')) = None
   \<and> fst (export_data sample_serializers EMPTY_FS [] [''out'', ''data.txt''] (Some ''JSON'')) = None"
proof -
  have a: "resolve_format [''out'', ''data.txt''] (Some ''jsonlines'') \<notin> set SUPPORTED"
    by code_simp
  have b: "resolve_format [''out'', ''data.txt''] (Some ''jsonl'') \<in> set SUPPORTED"
    by code_simp
  have c: "resolve_format [''out'', ''data.txt''] (Some ''JSON'') \<in> set SUPPORTED"
    by code_simp
  have d: "destination_ok EMPTY_FS [''out'', ''data.txt'']" by code_simp
  from export_data_rejects [OF a] export_data_ok [OF d b] export_data_ok [OF d c]
  show ?thesis by (intro conjI)
qed

text \<open>
  C5, amended. \<open>export_data\<close> accepts exactly the requests whose format, lowered, is one
  of \<open>json\<close>, \<open>jsonl\<close> and \<open>csv\<close>, the format being the explicit argument or, without
  one, the extension of the destination (\<open>json\<close> when it has none): \<open>ValueError\<close> is raised
  for the other requests and for no other, and at a destination that can be written (it
  is no directory and its parent exists or can be made) the accepted requests are the
  ones that return. A rejected request raises \<open>ValueError\<close> before any file operation: the
  file system after the call is the one before it, so neither the output file nor a parent
  directory is created.
\<close>

theorem export_data_formats:
  "(fst (export_data S fs records p fmt) = Some ValueError \<longleftrightarrow>
      resolve_format p fmt \<notin> {''json'', ''jsonl'', ''csv''})
   \<and> (destination_ok fs p \<longrightarrow>
        (fst (export_data S fs records p fmt) = None \<longleftrightarrow>
           resolve_format p fmt \<in> {''json'', ''jsonl'', ''csv''}))
   \<and> (resolve_format p fmt \<notin> {''json'', ''jsonl'', ''csv''} \<longrightarrow>
        export_data S fs records p fmt = (Some ValueError, fs))
   \<and> resolve_format p (Some f) = lower f
   \<and> resolve_format p None =
        (if lstrip_chars CHR ''.'' (lower (path_suffix (name_of p))) = [] then ''json''
         else lower (lstrip_chars CHR ''.'' (lower (path_suffix (name_of p)))))"
proof -
  have s: "set SUPPORTED = {''json'', ''jsonl'', ''csv''}" by (simp add: SUPPORTED_def)
  have c1: "fst (export_data S fs records p fmt) = Some ValueError \<longleftrightarrow>
      resolve_format p fmt \<notin> {''json'', ''jsonl'', ''csv''}"
    unfolding s [symmetric] by (rule export_data_value_error)
  have c2: "destination_ok fs p \<longrightarrow>
        (fst (export_data S fs records p fmt) = None \<longleftrightarrow>
           resolve_format p fmt \<in> {''json'', ''jsonl'', ''csv''})"
  proof
    assume d: "destination_ok fs p"
    show "fst (export_data S fs records p fmt) = None \<longleftrightarrow>
           resolve_format p fmt \<in> {''json'', ''jsonl'', ''csv''}"
    proof (cases "resolve_format p fmt \<in> set SUPPORTED")
      case True
      with export_data_ok [OF d True, of S records] show ?thesis unfolding s by simp
    next
      case False
      with export_data_rejects [OF False, of S fs records] show ?thesis unfolding s by simp
    qed
  qed
  have c3: "resolve_format p fmt \<notin> {''json'', ''jsonl'', ''csv''} \<longrightarrow>
        export_data S fs records p fmt = (Some ValueError, fs)"
    unfolding s [symmetric] by (simp add: export_data_rejects)
  have c4: "resolve_format p (Some f) = lower f" by (simp add: resolve_format_def)
  have c5: "resolve_format p None =
        (if lstrip_chars CHR ''.'' (lower (path_suffix (name_of p))) = [] then ''json''
         else lower (lstrip_chars CHR ''.'' (lower (path_suffix (name_of p)))))"
    by (simp add: resolve_format_def Let_def lower_csv)
  from c1 c2 c3 c4 c5 show ?thesis by (intro conjI)
qed

lemma sample_destination_ok: "destination_ok EMPTY_FS [''out'', ''data.txt'']"
  by code_simp

theorem export_data_formats_witness:
  "resolve_format [''out'', ''data.txt''] (Some ''xml'') = ''xml''
   \<and> export_data sample_serializers EMPTY_FS [] [''out'', ''data.txt''] (Some ''xml'')
       = (Some ValueError, EMPTY_FS)
   \<and> export_data sample_serializers EMPTY_FS [] [''out'', ''data.txt''] None
       = (Some ValueError, EMPTY_FS)
   \<and> resolve_format [''out'', ''data.CSV''] None = ''csv''
   \<and> destination_ok EMPTY_FS [''out'', ''data.txt'']
   \<and> fst (export_data sample_serializers EMPTY_FS [] [''out'', ''data.txt''] (Some ''JSONL''))
       = None"
proof -
  have a: "resolve_format [''out'', ''data.txt''] (Some ''xml'') = ''xml''" by code_simp
  have b: "resolve_format [''out'', ''data.txt''] None = ''txt''" by code_simp
  have c: "resolve_format [''out'', ''data.CSV''] None = ''csv''" by code_simp
  have j: "resolve_format [''out'', ''data.txt''] (Some ''JSONL'') = ''jsonl''" by code_simp
  have a': "resolve_format [''out'', ''data.txt''] (Some ''xml'') \<notin> {''json'', ''jsonl'', ''csv''}"
    unfolding a by simp
  have b': "resolve_format [''out'', ''data.txt''] None \<notin> {''json'', ''jsonl'', ''csv''}"
    unfolding b by simp
  have j': "resolve_format [''out'', ''data.txt''] (Some ''JSONL'') \<in> {''json'', ''jsonl'', ''csv''}"
    unfolding j by simp
  note t = export_data_formats [THEN conjunct2, THEN conjunct2, THEN conjunct1, THEN mp]
  note u = export_data_formats [THEN conjunct2, THEN conjunct1, THEN mp, OF sample_destination_ok,
      THEN iffD2]
  from t [OF a'] t [OF b'] u [OF j'] a c sample_destination_ok show ?thesis by blast
qed

section \<open>CSV export\<close>









end
